theory Spec2Isabelle
  imports Complex_Main
begin

section \<open>Numbers\<close>

text \<open>
  The widget is TypeScript; its numbers are IEEE doubles. The development reads the
  arithmetic of the source in exact real arithmetic: \<open>+\<close>, \<open>*\<close>, \<open>Math.sqrt\<close>,
  \<open>Math.cos\<close> and \<open>Math.sin\<close> are the real operations, and rounding is not part of the
  model. What is kept is the one non-numeric value the layout can produce: \<open>NaN\<close>.
  A \<open>number\<close> is \<open>Some x\<close> for a finite value and \<open>None\<close> for \<open>NaN\<close>; every
  operation propagates \<open>None\<close>.
\<close>

type_synonym number = "real option"

text \<open>
  JavaScript division: \<open>0 / 0\<close> is \<open>NaN\<close>. A non-zero numerator over zero would be an
  infinity; \<open>distributePointsOnSphere\<close> divides \<open>i\<close> by \<open>count - 1\<close> with \<open>i < count\<close>,
  so its divisor is zero only for \<open>count = 1\<close> and \<open>i = 0\<close>, and \<open>None\<close> there is \<open>NaN\<close>.
\<close>

definition js_div :: "real \<Rightarrow> real \<Rightarrow> number" where
  "js_div a b = (if b = 0 then None else Some (a / b))"

definition n_mul :: "number \<Rightarrow> number \<Rightarrow> number" where
  "n_mul a b = (case a of None \<Rightarrow> None | Some x \<Rightarrow> (case b of None \<Rightarrow> None | Some y \<Rightarrow> Some (x * y)))"

definition n_sub :: "number \<Rightarrow> number \<Rightarrow> number" where
  "n_sub a b = (case a of None \<Rightarrow> None | Some x \<Rightarrow> (case b of None \<Rightarrow> None | Some y \<Rightarrow> Some (x - y)))"

text \<open>\<open>Math.sqrt\<close> of a negative number is \<open>NaN\<close>.\<close>

definition n_sqrt :: "number \<Rightarrow> number" where
  "n_sqrt a = (case a of None \<Rightarrow> None | Some x \<Rightarrow> if x < 0 then None else Some (sqrt x))"

section \<open>Spherical layout\<close>

text \<open>
  \<open>distributePointsOnSphere\<close> of \<open>NetworkTopology.tsx\<close>: the body of the loop at index
  \<open>i\<close>, then the loop, which pushes one point for each \<open>i\<close> from \<open>0\<close> below \<open>count\<close>.
\<close>

definition golden_angle :: real where
  "golden_angle = pi * (3 - sqrt 5)"

definition sphere_point :: "nat \<Rightarrow> real \<Rightarrow> nat \<Rightarrow> number \<times> number \<times> number" where
  "sphere_point count radius i =
     (let y = n_sub (Some 1) (n_mul (js_div (real i) (real count - 1)) (Some 2));
          radius_at_y = n_sqrt (n_sub (Some 1) (n_mul y y));
          theta = golden_angle * real i;
          x = n_mul (Some (cos theta)) radius_at_y;
          z = n_mul (Some (sin theta)) radius_at_y
      in (n_mul x (Some radius), n_mul y (Some radius), n_mul z (Some radius)))"

definition distributePointsOnSphere :: "nat \<Rightarrow> real \<Rightarrow> (number \<times> number \<times> number) list" where
  "distributePointsOnSphere count radius = map (sphere_point count radius) [0..<count]"

text \<open>The copy in \<open>main.tsx\<close> takes no radius and pushes \<open>[x, y, z]\<close> unscaled.\<close>

definition sphere_point_main :: "nat \<Rightarrow> nat \<Rightarrow> number \<times> number \<times> number" where
  "sphere_point_main count i =
     (let y = n_sub (Some 1) (n_mul (js_div (real i) (real count - 1)) (Some 2));
          radius_at_y = n_sqrt (n_sub (Some 1) (n_mul y y));
          theta = golden_angle * real i;
          x = n_mul (Some (cos theta)) radius_at_y;
          z = n_mul (Some (sin theta)) radius_at_y
      in (x, y, z))"

definition distributePointsOnSphere_main :: "nat \<Rightarrow> (number \<times> number \<times> number) list" where
  "distributePointsOnSphere_main count = map (sphere_point_main count) [0..<count]"




text \<open>The closed form of the spiral the layout is meant to compute, for comparison.\<close>

definition spiral_y :: "nat \<Rightarrow> nat \<Rightarrow> real" where
  "spiral_y N i = 1 - 2 * real i / (real N - 1)"

definition spiral_point :: "nat \<Rightarrow> nat \<Rightarrow> real \<times> real \<times> real" where
  "spiral_point N i =
     (cos (real i * (pi * (3 - sqrt 5))) * sqrt (1 - (spiral_y N i)\<^sup>2),
      spiral_y N i,
      sin (real i * (pi * (3 - sqrt 5))) * sqrt (1 - (spiral_y N i)\<^sup>2))"

section \<open>Vectors and rotations\<close>

text \<open>
  A position \<open>[number, number, number]\<close> and a \<open>THREE.Vector3\<close> are both a triple of
  reals; \<open>new THREE.Vector3(...position)\<close> is the identity on it.

  Modelled from the spec: the methods of \<open>THREE.Vector3\<close> the widget calls (\<open>length\<close>,
  \<open>normalize\<close>, \<open>multiplyScalar\<close>, \<open>add\<close>, \<open>sub\<close>, \<open>crossVectors\<close>, \<open>distanceTo\<close>)
  belong to the three.js library, which is not under \<open>src/\<close>. The spec uses them as
  "normalize, scale by radius" and "normalized to a direction from sphere center"; they
  are the usual operations on vectors, and \<open>normalize\<close> divides by \<open>length() || 1\<close>, so
  the zero vector stays zero.
\<close>

type_synonym vec3 = "real \<times> real \<times> real"

fun lengthV :: "vec3 \<Rightarrow> real" where
  "lengthV (x, y, z) = sqrt (x * x + y * y + z * z)"

fun multiplyScalar :: "vec3 \<Rightarrow> real \<Rightarrow> vec3" where
  "multiplyScalar (x, y, z) s = (x * s, y * s, z * s)"

definition divideScalar :: "vec3 \<Rightarrow> real \<Rightarrow> vec3" where
  "divideScalar v s = multiplyScalar v (1 / s)"

definition normalizeV :: "vec3 \<Rightarrow> vec3" where
  "normalizeV v = divideScalar v (if lengthV v = 0 then 1 else lengthV v)"

fun addV :: "vec3 \<Rightarrow> vec3 \<Rightarrow> vec3" where
  "addV (ax, ay, az) (bx, by, bz) = (ax + bx, ay + by, az + bz)"

fun subV :: "vec3 \<Rightarrow> vec3 \<Rightarrow> vec3" where
  "subV (ax, ay, az) (bx, by, bz) = (ax - bx, ay - by, az - bz)"

fun dotV :: "vec3 \<Rightarrow> vec3 \<Rightarrow> real" where
  "dotV (ax, ay, az) (bx, by, bz) = ax * bx + ay * by + az * bz"

fun crossVectors :: "vec3 \<Rightarrow> vec3 \<Rightarrow> vec3" where
  "crossVectors (ax, ay, az) (bx, by, bz) =
     (ay * bz - az * by, az * bx - ax * bz, ax * by - ay * bx)"

definition distanceTo :: "vec3 \<Rightarrow> vec3 \<Rightarrow> real" where
  "distanceTo a b = lengthV (subV a b)"

text \<open>
  Modelled from the spec: \<open>THREE.Quaternion\<close> (\<open>setFromUnitVectors\<close>, \<open>slerpQuaternions\<close>)
  and \<open>Vector3.applyQuaternion\<close> belong to the three.js library, which is not under
  \<open>src/\<close>. Section 4.2 of the spec describes them: "build the rotation that maps a
  reference up vector to start's direction and one that maps it to end's direction (as
  unit rotations); spherically interpolate (slerp) between these two rotations by t;
  apply the interpolated rotation to the reference vector". The definitions follow the
  library's methods in exact arithmetic: the unit quaternion of the shortest arc from
  \<open>vFrom\<close> to \<open>vTo\<close>, with the library's choice of an orthogonal axis when the two are
  opposite; slerp along the shorter of the two arcs, with weights
  \<open>sin ((1 - t) \<theta>) / sin \<theta>\<close> and \<open>sin (t \<theta>) / sin \<theta>\<close>; rotation of a vector by a unit
  quaternion. The library guards its two degenerate cases with floating-point tolerances
  (\<open>1 + dot\<close> below \<open>Number.EPSILON\<close>, \<open>sin\<^sup>2\<close> below \<open>Number.EPSILON\<close>); in exact
  arithmetic these are the tests \<open>r \<le> 0\<close> and \<open>sqrSinHalfTheta \<le> 0\<close> written here.
\<close>

datatype quaternion = Quaternion (qx: real) (qy: real) (qz: real) (qw: real)

definition lengthQ :: "quaternion \<Rightarrow> real" where
  "lengthQ q = sqrt (qx q * qx q + qy q * qy q + qz q * qz q + qw q * qw q)"

definition normalizeQ :: "quaternion \<Rightarrow> quaternion" where
  "normalizeQ q =
     (let l = lengthQ q in
      if l = 0 then Quaternion 0 0 0 1
      else Quaternion (qx q * (1 / l)) (qy q * (1 / l)) (qz q * (1 / l)) (qw q * (1 / l)))"

definition dotQ :: "quaternion \<Rightarrow> quaternion \<Rightarrow> real" where
  "dotQ a b = qx a * qx b + qy a * qy b + qz a * qz b + qw a * qw b"

fun setFromUnitVectors :: "vec3 \<Rightarrow> vec3 \<Rightarrow> quaternion" where
  "setFromUnitVectors (fx, fy, fz) (tx, ty, tz) =
     (let r = dotV (fx, fy, fz) (tx, ty, tz) + 1 in
      if r \<le> 0 then
        (if \<bar>fx\<bar> > \<bar>fz\<bar> then normalizeQ (Quaternion (- fy) fx 0 0)
         else normalizeQ (Quaternion 0 (- fz) fy 0))
      else
        normalizeQ (Quaternion (fy * tz - fz * ty) (fz * tx - fx * tz) (fx * ty - fy * tx) r))"

definition slerp :: "quaternion \<Rightarrow> quaternion \<Rightarrow> real \<Rightarrow> quaternion" where
  "slerp qa qb t =
     (if t = 0 then qa
      else if t = 1 then qb
      else
        let d = dotQ qa qb;
            cosHalfTheta = (if d < 0 then - d else d);
            qb' = (if d < 0 then Quaternion (- qx qb) (- qy qb) (- qz qb) (- qw qb) else qb)
        in if cosHalfTheta \<ge> 1 then qa
           else
             let sqrSinHalfTheta = 1 - cosHalfTheta * cosHalfTheta in
             if sqrSinHalfTheta \<le> 0 then
               normalizeQ (Quaternion ((1 - t) * qx qa + t * qx qb') ((1 - t) * qy qa + t * qy qb')
                                      ((1 - t) * qz qa + t * qz qb') ((1 - t) * qw qa + t * qw qb'))
             else
               let sinHalfTheta = sqrt sqrSinHalfTheta;
                   halfTheta = arccos cosHalfTheta;
                   ratioA = sin ((1 - t) * halfTheta) / sinHalfTheta;
                   ratioB = sin (t * halfTheta) / sinHalfTheta
               in Quaternion (qx qa * ratioA + qx qb' * ratioB) (qy qa * ratioA + qy qb' * ratioB)
                             (qz qa * ratioA + qz qb' * ratioB) (qw qa * ratioA + qw qb' * ratioB))"

definition slerpQuaternions :: "quaternion \<Rightarrow> quaternion \<Rightarrow> real \<Rightarrow> quaternion" where
  "slerpQuaternions qa qb t = slerp qa qb t"

fun applyQuaternion :: "vec3 \<Rightarrow> quaternion \<Rightarrow> vec3" where
  "applyQuaternion (vx, vy, vz) q =
     (let tx = 2 * (qy q * vz - qz q * vy);
          ty = 2 * (qz q * vx - qx q * vz);
          tz = 2 * (qx q * vy - qy q * vx)
      in (vx + qw q * tx + qy q * tz - qz q * ty,
          vy + qw q * ty + qz q * tx - qx q * tz,
          vz + qw q * tz + qx q * ty - qy q * tx))"

section \<open>Great-circle geometry\<close>

text \<open>
  \<open>getGreatCirclePoint\<close> as \<open>NetworkTopology.tsx\<close> and the tooltip module have it.
\<close>

definition getGreatCirclePoint :: "vec3 \<Rightarrow> vec3 \<Rightarrow> real \<Rightarrow> real \<Rightarrow> vec3" where
  "getGreatCirclePoint start endv t radius =
     (let startQuat = setFromUnitVectors (0, 1, 0) (normalizeV start);
          endQuat = setFromUnitVectors (0, 1, 0) (normalizeV endv);
          slerpQuat = slerpQuaternions startQuat endQuat t;
          point = applyQuaternion (0, 1, 0) slerpQuat
      in multiplyScalar point radius)"

text \<open>
  \<open>getGreatCirclePoint\<close> of \<open>TrafficFlow.tsx\<close>, with its optional lateral offset
  (\<open>None\<close> is the default \<open>null\<close>).
\<close>

definition getGreatCirclePointOffset :: "vec3 \<Rightarrow> vec3 \<Rightarrow> real \<Rightarrow> real \<Rightarrow> vec3 option \<Rightarrow> vec3" where
  "getGreatCirclePointOffset start endv t radius offset =
     (let point = getGreatCirclePoint start endv t radius in
      case offset of
        None \<Rightarrow> point
      | Some off \<Rightarrow>
          let tangent = normalizeV (subV endv start);
              perpendicular = normalizeV (crossVectors point tangent);
              moved = addV point (multiplyScalar perpendicular (lengthV off * (1 / 10)))
          in multiplyScalar (normalizeV moved) radius)"

section \<open>Topology data\<close>

datatype trafficIntensity = Low | Medium | High

record node =
  node_id :: string
  node_position :: vec3

record link =
  link_source :: string
  link_target :: string
  link_trafficIntensity :: trafficIntensity

section \<open>Tooltip auto-cycle\<close>

datatype tooltip_type = NodeTip | LinkTip

record TooltipData =
  tip_type :: tooltip_type
  tip_title :: string
  tip_details :: "string list"

record AutoTooltipState =
  tip_position :: vec3
  tip_targetPosition :: vec3
  tip_data :: TooltipData

text \<open>
  \<open>findClosestPointOnGreatCircle\<close>: 33 samples of the curve, \<open>i = 0 .. 32\<close>; the first
  sample at the least distance wins (\<open>distance < minDistance\<close>). \<open>minDistance\<close> starts as
  \<open>Infinity\<close>, written \<open>None\<close>.
\<close>

definition closest_step :: "vec3 \<Rightarrow> vec3 \<Rightarrow> vec3 \<Rightarrow> real \<Rightarrow> vec3 \<times> real option \<Rightarrow> nat \<Rightarrow> vec3 \<times> real option" where
  "closest_step start endv point radius acc i =
     (let t = real i / 32;
          pathPoint = getGreatCirclePoint start endv t radius;
          distance = distanceTo point pathPoint
      in if (case snd acc of None \<Rightarrow> True | Some minDistance \<Rightarrow> distance < minDistance)
         then (pathPoint, Some distance) else acc)"

definition findClosestPointOnGreatCircle :: "vec3 \<Rightarrow> vec3 \<Rightarrow> vec3 \<Rightarrow> real \<Rightarrow> vec3" where
  "findClosestPointOnGreatCircle start endv point radius =
     fst (foldl (closest_step start endv point radius) ((0, 0, 0), None) [0..<33])"

text \<open>\<open>ensureOutsideSphere\<close>; every caller leaves \<open>offset\<close> at its default 1.5.\<close>

definition ensureOutsideSphere :: "vec3 \<Rightarrow> real \<Rightarrow> real \<Rightarrow> vec3" where
  "ensureOutsideSphere position radius offset = multiplyScalar (normalizeV position) (radius * offset)"

definition default_offset :: real where
  "default_offset = 3 / 2"


text \<open>The arrow of a link's title, U+2192, as its UTF-8 bytes.\<close>

definition arrow :: string where
  "arrow = [CHR 0xE2, CHR 0x86, CHR 0x92]"

definition node_tooltip :: "node \<Rightarrow> AutoTooltipState" where
  "node_tooltip n =
     (let radius = (case node_position n of (x, y, z) \<Rightarrow> sqrt (x * x + y * y + z * z));
          offsetPosition = ensureOutsideSphere (node_position n) radius default_offset
      in \<lparr> tip_position = offsetPosition,
           tip_targetPosition = node_position n,
           tip_data = \<lparr> tip_type = NodeTip,
                        tip_title = ''Node '' @ node_id n,
                        tip_details = [''Status: Active'', ''Uptime: 99.99%'', ''Load: Normal''] \<rparr> \<rparr>)"

fun midpoint :: "vec3 \<Rightarrow> vec3 \<Rightarrow> vec3" where
  "midpoint (ax, ay, az) (bx, by, bz) = ((ax + bx) / 2, (ay + by) / 2, (az + bz) / 2)"

definition link_tooltip :: "link \<Rightarrow> node \<Rightarrow> node \<Rightarrow> AutoTooltipState" where
  "link_tooltip l sourceNode targetNode =
     (let sourcePos = node_position sourceNode;
          targetPos = node_position targetNode;
          radius = lengthV sourcePos;
          mid = midpoint (node_position sourceNode) (node_position targetNode);
          offsetPosition = ensureOutsideSphere mid radius default_offset;
          closestPoint = findClosestPointOnGreatCircle sourcePos targetPos mid radius
      in \<lparr> tip_position = offsetPosition,
           tip_targetPosition = closestPoint,
           tip_data = \<lparr> tip_type = LinkTip,
                        tip_title = ''Link '' @ link_source l @ '' '' @ arrow @ '' '' @ link_target l,
                        tip_details = [''Status: Online'', ''Latency: low''] \<rparr> \<rparr>)"

text \<open>
  The hook \<open>useTooltipAutoMovement\<close> keeps two pieces of state: the ref \<open>currentIndex\<close>
  and the React state \<open>tooltipData\<close>. \<open>moveTooltip\<close> is its timer callback. An uncaught
  exception is a value: indexing an array out of range gives \<open>undefined\<close>, and reading
  a field of \<open>undefined\<close> throws \<open>TypeError\<close>. With no entity at all \<open>(i + 1) % 0\<close> is
  \<open>NaN\<close>, the comparison with \<open>nodes.length\<close> is false and \<open>links[NaN]\<close> is \<open>undefined\<close>.
  \<open>nodes.find\<close> returns the first node with the id, or \<open>undefined\<close> (\<open>None\<close>).
\<close>

datatype js_error = TypeError

record tooltip_hook =
  currentIndex :: nat
  tooltipData :: "AutoTooltipState option"

definition moveTooltip :: "node list \<Rightarrow> link list \<Rightarrow> tooltip_hook \<Rightarrow> js_error + tooltip_hook" where
  "moveTooltip nodes links st =
     (let totalPoints = length nodes + length links in
      if totalPoints = 0 then Inl TypeError
      else
        let idx = (currentIndex st + 1) mod totalPoints;
            st1 = st \<lparr> currentIndex := idx \<rparr>
        in if idx < length nodes then
             Inr (st1 \<lparr> tooltipData := Some (node_tooltip (nodes ! idx)) \<rparr>)
           else
             let linkIndex = idx - length nodes in
             if linkIndex < length links then
               (let l = links ! linkIndex;
                    sourceNode = find (\<lambda>n. node_id n = link_source l) nodes;
                    targetNode = find (\<lambda>n. node_id n = link_target l) nodes
                in case sourceNode of
                     None \<Rightarrow> Inr st1
                   | Some s \<Rightarrow>
                       (case targetNode of
                          None \<Rightarrow> Inr st1
                        | Some t \<Rightarrow> Inr (st1 \<lparr> tooltipData := Some (link_tooltip l s t) \<rparr>)))
             else Inl TypeError)"

text \<open>
  \<open>n\<close> calls of the timer callback in a row; the first exception ends the run.
\<close>

fun ticks :: "node list \<Rightarrow> link list \<Rightarrow> nat \<Rightarrow> tooltip_hook \<Rightarrow> js_error + tooltip_hook" where
  "ticks nodes links 0 st = Inr st"
| "ticks nodes links (Suc n) st =
     (case moveTooltip nodes links st of
        Inl e \<Rightarrow> Inl e
      | Inr st' \<Rightarrow> ticks nodes links n st')"

text \<open>
  The effect of the hook: nothing for an empty topology; otherwise one call of
  \<open>moveTooltip\<close> at once ("Initial tooltip position") and one more per interval. The
  state after mounting and \<open>n\<close> intervals, from the hook's initial state.
\<close>

definition initial_hook :: tooltip_hook where
  "initial_hook = \<lparr> currentIndex = 0, tooltipData = None \<rparr>"

definition useTooltipAutoMovement :: "node list \<Rightarrow> link list \<Rightarrow> nat \<Rightarrow> js_error + tooltip_hook" where
  "useTooltipAutoMovement nodes links n =
     (if length nodes = 0 \<and> length links = 0 then Inr initial_hook
      else ticks nodes links (Suc n) initial_hook)"

text \<open>
  The entities the cycle runs over, in the order the index reads them: the nodes, then
  the links.
\<close>

datatype entity = NodeEntity node | LinkEntity link

definition entities :: "node list \<Rightarrow> link list \<Rightarrow> entity list" where
  "entities nodes links = map NodeEntity nodes @ map LinkEntity links"

text \<open>What a call of \<open>moveTooltip\<close> that selects the entity shows for it.\<close>

definition shown :: "node list \<Rightarrow> entity \<Rightarrow> AutoTooltipState option" where
  "shown nodes e =
     (case e of
        NodeEntity n \<Rightarrow> Some (node_tooltip n)
      | LinkEntity l \<Rightarrow>
          (case find (\<lambda>n. node_id n = link_source l) nodes of
             None \<Rightarrow> None
           | Some s \<Rightarrow>
               (case find (\<lambda>n. node_id n = link_target l) nodes of
                  None \<Rightarrow> None
                | Some t \<Rightarrow> Some (link_tooltip l s t))))"


definition displayed_after :: "node list \<Rightarrow> link list \<Rightarrow> nat \<Rightarrow> AutoTooltipState option" where
  "displayed_after nodes links n =
     (case useTooltipAutoMovement nodes links n of
        Inl e \<Rightarrow> None
      | Inr st \<Rightarrow> tooltipData st)"

definition first_displayed :: "node list \<Rightarrow> link list \<Rightarrow> AutoTooltipState option" where
  "first_displayed nodes links =
     (case filter (\<lambda>t. t \<noteq> None) (map (displayed_after nodes links) [0..<length nodes + length links]) of
        [] \<Rightarrow> None
      | t # ts \<Rightarrow> t)"

text \<open>
  Two small topologies on the sphere of radius 8: the scenario of the spec's section 8
  (nodes A and B, one link between them), and one whose only link names a node, Z, that
  does not exist.
\<close>

definition nodeA :: node where
  "nodeA = \<lparr> node_id = ''A'', node_position = (8, 0, 0) \<rparr>"

definition nodeB :: node where
  "nodeB = \<lparr> node_id = ''B'', node_position = (0, 8, 0) \<rparr>"

definition linkAB :: link where
  "linkAB = \<lparr> link_source = ''A'', link_target = ''B'', link_trafficIntensity = High \<rparr>"

definition linkAZ :: link where
  "linkAZ = \<lparr> link_source = ''A'', link_target = ''Z'', link_trafficIntensity = Low \<rparr>"

section \<open>Rendering of links\<close>

text \<open>
  \<open>NetworkTopology\<close> keeps one ref per node of the topology (\<open>nodeRefs\<close>, keyed by node
  id). \<open>updatePositions\<close> copies the live centre of every mounted node into a fresh map;
  \<open>centers id\<close> is \<open>ref.current.getCenter()\<close>, or \<open>None\<close> while \<open>ref.current\<close> is null.
  A link is rendered when both of its ends have a position in that map, and yields
  \<open>null\<close> (\<open>None\<close>) otherwise.
\<close>

definition updatePositions :: "node list \<Rightarrow> (string \<Rightarrow> vec3 option) \<Rightarrow> (string \<Rightarrow> vec3 option)" where
  "updatePositions nodes centers = (\<lambda>i. if i \<in> set (map node_id nodes) then centers i else None)"

record NetworkLink =
  nl_start :: vec3
  nl_end :: vec3
  nl_trafficIntensity :: trafficIntensity
  nl_sourceId :: string
  nl_targetId :: string

definition render_link :: "(string \<Rightarrow> vec3 option) \<Rightarrow> link \<Rightarrow> NetworkLink option" where
  "render_link nodePositions l =
     (case nodePositions (link_source l) of
        None \<Rightarrow> None
      | Some sourcePos \<Rightarrow>
          (case nodePositions (link_target l) of
             None \<Rightarrow> None
           | Some targetPos \<Rightarrow>
               Some \<lparr> nl_start = sourcePos, nl_end = targetPos,
                      nl_trafficIntensity = link_trafficIntensity l,
                      nl_sourceId = link_source l, nl_targetId = link_target l \<rparr>))"

definition render_links :: "node list \<Rightarrow> link list \<Rightarrow> (string \<Rightarrow> vec3 option) \<Rightarrow> NetworkLink option list" where
  "render_links nodes links centers = map (render_link (updatePositions nodes centers)) links"

section \<open>Traffic particles\<close>

record IntensityParams =
  ip_count :: nat
  ip_speed :: real
  ip_size :: real

definition getIntensityParams :: "trafficIntensity \<Rightarrow> IntensityParams" where
  "getIntensityParams intensity =
     \<lparr> ip_count = (if intensity = Low then 20 else if intensity = Medium then 40 else 60),
       ip_speed = (if intensity = Low then 3 / 10 else if intensity = Medium then 5 / 10 else 7 / 10),
       ip_size = (if intensity = Low then 1 / 10 else if intensity = Medium then 15 / 100 else 2 / 10) \<rparr>"

text \<open>
  \<open>Math.random\<close> is read as the sequence \<open>random\<close> of the values its calls return, in the
  order of the calls; the state counts the calls made so far (\<open>draws\<close>).
  \<open>createRandomOffset\<close> makes three calls, for \<open>x\<close>, \<open>y\<close> and \<open>z\<close> in that order; \<open>k\<close> is
  the number of calls made before it.
\<close>

definition createRandomOffset :: "(nat \<Rightarrow> real) \<Rightarrow> nat \<Rightarrow> real \<Rightarrow> vec3" where
  "createRandomOffset random k maxOffset =
     ((random k - 1 / 2) * maxOffset,
      (random (k + 1) - 1 / 2) * maxOffset,
      (random (k + 2) - 1 / 2) * maxOffset)"

text \<open>
  The refs of one \<open>TrafficFlow\<close>. \<open>progress\<close> and the position buffer are
  \<open>Float32Array\<close>s: a store rounds the double to single precision, which is the function
  \<open>fround\<close> below, left open (every result holds for any rounding); a store out of range is
  ignored, as a list update out of range is.
\<close>

record flow =
  lastTime :: real
  progress :: "real list"
  offsets :: "vec3 list"
  positions :: "real list"
  draws :: nat

text \<open>The body of the loop of the frame callback, for particle \<open>i\<close>.\<close>

definition particle_step ::
  "(real \<Rightarrow> real) \<Rightarrow> (nat \<Rightarrow> real) \<Rightarrow> vec3 \<Rightarrow> vec3 \<Rightarrow> real \<Rightarrow> real \<Rightarrow> real \<Rightarrow> flow \<Rightarrow> nat \<Rightarrow> flow" where
  "particle_step fround random startVec endVec sphereRadius speed delta st i =
     (let st1 = st \<lparr> progress := (progress st)[i := fround (progress st ! i + speed * delta)] \<rparr>;
          st2 = (if progress st1 ! i > 1
                 then st1 \<lparr> progress := (progress st1)[i := 0],
                            offsets := (offsets st1)[i := createRandomOffset random (draws st1) (1 / 2)],
                            draws := draws st1 + 3 \<rparr>
                 else st1);
          point = getGreatCirclePointOffset startVec endVec (progress st2 ! i) sphereRadius
                    (Some (offsets st2 ! i));
          idx = i * 3
      in st2 \<lparr> positions := (positions st2)[idx := fround (fst point),
                                               idx + 1 := fround (fst (snd point)),
                                               idx + 2 := fround (snd (snd point))] \<rparr>)"

text \<open>
  The frame callback (\<open>useFrame\<close>) at clock time \<open>time\<close>. \<open>pointsMounted\<close> says whether
  \<open>points.current\<close> is set; the other two refs are set by the first render.
\<close>

definition useFrame ::
  "(real \<Rightarrow> real) \<Rightarrow> (nat \<Rightarrow> real) \<Rightarrow> vec3 \<Rightarrow> vec3 \<Rightarrow> trafficIntensity \<Rightarrow> bool \<Rightarrow> real \<Rightarrow> flow \<Rightarrow> flow" where
  "useFrame fround random start endv intensity pointsMounted time st =
     (if \<not> pointsMounted then st
      else
        let delta = (if lastTime st = 0 then 0 else time - lastTime st);
            st1 = st \<lparr> lastTime := time \<rparr>
        in foldl (particle_step fround random start endv (lengthV start)
                    (ip_speed (getIntensityParams intensity)) delta)
             st1 [0..<ip_count (getIntensityParams intensity)])"

text \<open>
  The first render (\<open>useMemo\<close>, both refs still null): a random phase for every particle,
  then a random offset for every particle, then the position buffer, then
  \<open>new THREE.BufferGeometry()\<close>, whose identifier three.js makes from four more calls of
  \<open>Math.random\<close>; \<open>k\<close> calls were made before. Between two frames other components call
  \<open>Math.random\<close> as well, so \<open>draws\<close> at the start of a frame is whatever the count is
  by then; inside the frame callback only \<open>createRandomOffset\<close> calls it.
\<close>

definition init_particles ::
  "(real \<Rightarrow> real) \<Rightarrow> (nat \<Rightarrow> real) \<Rightarrow> vec3 \<Rightarrow> vec3 \<Rightarrow> trafficIntensity \<Rightarrow> nat \<Rightarrow> flow" where
  "init_particles fround random start endv intensity k =
     (let count = ip_count (getIntensityParams intensity);
          ps = map (\<lambda>i. fround (random (k + i))) [0..<count];
          os = map (\<lambda>i. createRandomOffset random (k + count + 3 * i) (1 / 2)) [0..<count];
          pts = map (\<lambda>i. getGreatCirclePointOffset start endv (ps ! i) (lengthV start) (Some (os ! i)))
                  [0..<count]
      in \<lparr> lastTime = 0, progress = ps, offsets = os,
           positions = concat (map (\<lambda>p. [fround (fst p), fround (fst (snd p)), fround (snd (snd p))]) pts),
           draws = k + 4 * count + 4 \<rparr>)"

text \<open>
  For stating the update: the value particle \<open>j\<close> is advanced to in a frame, and the
  number of particles before \<open>i\<close> that wrap in it.
\<close>

definition frame_delta :: "real \<Rightarrow> flow \<Rightarrow> real" where
  "frame_delta time st = (if lastTime st = 0 then 0 else time - lastTime st)"

definition advanced :: "(real \<Rightarrow> real) \<Rightarrow> trafficIntensity \<Rightarrow> real \<Rightarrow> flow \<Rightarrow> nat \<Rightarrow> real" where
  "advanced fround intensity time st j =
     fround (progress st ! j + ip_speed (getIntensityParams intensity) * frame_delta time st)"

definition wraps_before :: "(real \<Rightarrow> real) \<Rightarrow> trafficIntensity \<Rightarrow> real \<Rightarrow> flow \<Rightarrow> nat \<Rightarrow> nat" where
  "wraps_before fround intensity time st i =
     length (filter (\<lambda>j. advanced fround intensity time st j > 1) [0..<i])"

text \<open>
  A run to look at: the link of high intensity from A to B on the sphere of radius 8,
  with no rounding, the \<open>k\<close>-th call of \<open>Math.random\<close> returning \<open>9 / (10 + k)\<close>, one
  second after the last frame.
\<close>

definition demo_random :: "nat \<Rightarrow> real" where
  "demo_random k = 9 / (10 + real k)"

definition demo_flow :: flow where
  "demo_flow = (init_particles (\<lambda>x. x) demo_random (8, 0, 0) (0, 8, 0) High 0) \<lparr> lastTime := 1 \<rparr>"

section \<open>Selection and the camera controller\<close>

text \<open>
  The two click handlers of \<open>NetworkTopology\<close> set the state the camera controller reads:
  \<open>selectedTarget\<close> and \<open>selectedTooltip\<close>, with the hover state and the auto-cycle flag.
\<close>

record selection =
  selectedTarget :: "vec3 option"
  selectedTooltip :: "vec3 option"
  hoveredNode :: "string option"
  hoveredLink :: "(string \<times> string) option"
  autoTooltip :: bool

definition handleNodeClick :: "node list \<Rightarrow> string \<Rightarrow> selection \<Rightarrow> selection" where
  "handleNodeClick nodes nodeId sel =
     (case find (\<lambda>n. node_id n = nodeId) nodes of
        None \<Rightarrow> sel
      | Some n \<Rightarrow>
          let radius = (case node_position n of (x, y, z) \<Rightarrow> sqrt (x * x + y * y + z * z));
              tooltipPosition = ensureOutsideSphere (node_position n) radius default_offset
          in sel \<lparr> selectedTarget := Some (node_position n),
                   selectedTooltip := Some tooltipPosition,
                   hoveredNode := Some nodeId,
                   hoveredLink := None,
                   autoTooltip := False \<rparr>)"

definition handleLinkClick :: "node list \<Rightarrow> string \<Rightarrow> string \<Rightarrow> selection \<Rightarrow> selection" where
  "handleLinkClick nodes sourceId targetId sel =
     (case find (\<lambda>n. node_id n = sourceId) nodes of
        None \<Rightarrow> sel
      | Some sourceNode \<Rightarrow>
          (case find (\<lambda>n. node_id n = targetId) nodes of
             None \<Rightarrow> sel
           | Some targetNode \<Rightarrow>
               let sourcePos = node_position sourceNode;
                   targetPos = node_position targetNode;
                   radius = lengthV sourcePos;
                   mid = midpoint (node_position sourceNode) (node_position targetNode);
                   tooltipPos = ensureOutsideSphere mid radius default_offset;
                   closestPoint = findClosestPointOnGreatCircle sourcePos targetPos mid radius
               in sel \<lparr> selectedTarget := Some closestPoint,
                        selectedTooltip := Some tooltipPos,
                        hoveredNode := None,
                        hoveredLink := Some (sourceId, targetId),
                        autoTooltip := False \<rparr>))"

text \<open>
  The hover handlers of \<open>NetworkTopology\<close>. They do nothing while the auto-cycle is on;
  \<open>targetId ? {...} : null\<close> treats the empty string like \<open>null\<close>.
\<close>

definition handleNodeHover :: "string option \<Rightarrow> selection \<Rightarrow> selection" where
  "handleNodeHover nodeId sel =
     (if autoTooltip sel then sel
      else sel \<lparr> hoveredNode := nodeId, hoveredLink := None \<rparr>)"

definition handleLinkHover :: "string \<Rightarrow> string option \<Rightarrow> selection \<Rightarrow> selection" where
  "handleLinkHover sourceId targetId sel =
     (if autoTooltip sel then sel
      else sel \<lparr> hoveredNode := None,
                 hoveredLink := (case targetId of
                                   None \<Rightarrow> None
                                 | Some t \<Rightarrow> if t = [] then None else Some (sourceId, t)) \<rparr>)"

text \<open>
  The pointer events the two components listen to on their \<open>group\<close>. \<open>NetworkNode\<close>
  attaches \<open>onPointerEnter\<close>, \<open>onPointerLeave\<close> and \<open>onPointerDown\<close>, the last calling
  \<open>onClick(id)\<close>. \<open>NetworkLink\<close> names \<open>onClick\<close> in the type of its props and is given
  \<open>handleLinkClick\<close> for it, but takes only \<open>onHover\<close> out of the props and attaches
  \<open>onPointerEnter\<close> and \<open>onPointerLeave\<close>: a pointer-down on a link reaches no handler of
  the component. \<open>selectedTarget\<close> and \<open>selectedTooltip\<close> are set nowhere but in the two
  click handlers.
\<close>

datatype pointer_event = PointerEnter | PointerLeave | PointerDown

definition NetworkNode_pointer ::
  "(string option \<Rightarrow> 's \<Rightarrow> 's) \<Rightarrow> (string \<Rightarrow> 's \<Rightarrow> 's) \<Rightarrow> string \<Rightarrow> pointer_event \<Rightarrow> 's \<Rightarrow> 's" where
  "NetworkNode_pointer onHover onClick ident ev s =
     (case ev of
        PointerEnter \<Rightarrow> onHover (Some ident) s
      | PointerLeave \<Rightarrow> onHover None s
      | PointerDown \<Rightarrow> onClick ident s)"

definition NetworkLink_pointer ::
  "(string \<Rightarrow> string option \<Rightarrow> 's \<Rightarrow> 's) \<Rightarrow> (string \<Rightarrow> string \<Rightarrow> 's \<Rightarrow> 's) \<Rightarrow> string \<Rightarrow> string
     \<Rightarrow> pointer_event \<Rightarrow> 's \<Rightarrow> 's" where
  "NetworkLink_pointer onHover onClick sourceId targetId ev s =
     (case ev of
        PointerEnter \<Rightarrow> onHover sourceId (Some targetId) s
      | PointerLeave \<Rightarrow> onHover sourceId None s
      | PointerDown \<Rightarrow> s)"

text \<open>
  The scene of \<open>NetworkTopology\<close>: every node is rendered as a \<open>NetworkNode\<close> with
  \<open>handleNodeHover\<close> and \<open>handleNodeClick\<close>, every link whose endpoints have a position as
  a \<open>NetworkLink\<close> with \<open>handleLinkHover\<close> and \<open>handleLinkClick\<close>.
\<close>

datatype scene_object = NodeObject string | LinkObject string string

definition scene_pointer :: "node list \<Rightarrow> scene_object \<Rightarrow> pointer_event \<Rightarrow> selection \<Rightarrow> selection" where
  "scene_pointer nodes obj ev sel =
     (case obj of
        NodeObject ident \<Rightarrow>
          NetworkNode_pointer handleNodeHover (handleNodeClick nodes) ident ev sel
      | LinkObject sourceId targetId \<Rightarrow>
          NetworkLink_pointer handleLinkHover (handleLinkClick nodes) sourceId targetId ev sel)"

text \<open>The state \<open>NetworkTopology\<close> starts with: nothing selected, the auto-cycle on.\<close>

definition initial_selection :: selection where
  "initial_selection =
     \<lparr> selectedTarget = None, selectedTooltip = None, hoveredNode = None, hoveredLink = None,
       autoTooltip = True \<rparr>"

text \<open>
  Modelled from the spec: \<open>TWEEN.Tween\<close>, \<open>TWEEN.Easing\<close> and \<open>TWEEN.update\<close> belong to the
  tween.js library, which is not under \<open>src/\<close>. Section 4.6 describes the tween as
  "animated from its current value to the new value over a fixed duration using an eased
  (cubic in-out) time-based interpolation". A tween is made on an object and moves
  nothing until \<open>to\<close> gives it end values and a duration; its easing is linear until
  \<open>easing\<close> sets another; \<open>TWEEN.update\<close> moves only a tween that \<open>start\<close> has set playing.
  \<open>elapsedMs\<close> milliseconds after its start a playing tween writes
  \<open>from + (to - from) * easing (elapsedMs / duration)\<close>, the fraction capped at 1.
\<close>

record tween =
  tween_from :: vec3
  tween_to :: vec3
  tween_duration :: real
  tween_easing :: "real \<Rightarrow> real"
  tween_isPlaying :: bool

definition Linear_None :: "real \<Rightarrow> real" where
  "Linear_None amount = amount"

definition Cubic_InOut :: "real \<Rightarrow> real" where
  "Cubic_InOut amount =
     (if amount * 2 < 1 then (1 / 2) * (amount * 2) ^ 3
      else (1 / 2) * ((amount * 2 - 2) ^ 3 + 2))"

definition Tween :: "vec3 \<Rightarrow> tween" where
  "Tween object =
     \<lparr> tween_from = object, tween_to = object, tween_duration = 1000,
       tween_easing = Linear_None, tween_isPlaying = False \<rparr>"

definition Tween_to :: "vec3 \<Rightarrow> real \<Rightarrow> tween \<Rightarrow> tween" where
  "Tween_to target duration tw = tw \<lparr> tween_to := target, tween_duration := duration \<rparr>"

definition Tween_easing :: "(real \<Rightarrow> real) \<Rightarrow> tween \<Rightarrow> tween" where
  "Tween_easing easingFunction tw = tw \<lparr> tween_easing := easingFunction \<rparr>"

definition Tween_start :: "tween \<Rightarrow> tween" where
  "Tween_start tw = tw \<lparr> tween_isPlaying := True \<rparr>"

definition tween_value :: "tween \<Rightarrow> real \<Rightarrow> vec3" where
  "tween_value tw elapsedMs =
     (let elapsed = (if tween_duration tw = 0 \<or> elapsedMs / tween_duration tw > 1 then 1
                     else elapsedMs / tween_duration tw)
      in addV (tween_from tw)
           (multiplyScalar (subV (tween_to tw) (tween_from tw)) (tween_easing tw elapsed)))"

text \<open>
  The effect of \<open>CameraController\<close>. The camera rig is the camera's position, the orbit
  controls' target and the position tween in flight. The effect does nothing unless both
  positions and the controls are there; otherwise it works out the camera position to
  move to, makes the tween on a copy of the current position, to that position in 1500 ms
  with \<open>TWEEN.Easing.Cubic.InOut\<close>, sets the controls' target to the centre and starts the
  tween. The camera starts at \<open>(0, 15, 25)\<close> with no tween.
\<close>

record camera_rig =
  camera_position :: vec3
  controls_target :: vec3
  posTween :: "tween option"

definition cameraDestination :: "vec3 \<Rightarrow> vec3 \<Rightarrow> vec3" where
  "cameraDestination targetVec tooltipVec =
     (let mid = multiplyScalar (addV targetVec tooltipVec) (1 / 2);
          viewDirection = normalizeV mid;
          distance = 25;
          cameraPosition = multiplyScalar viewDirection (- distance)
      in case cameraPosition of (x, y, z) \<Rightarrow> (x, y + 10, z))"

definition CameraController :: "vec3 option \<Rightarrow> vec3 option \<Rightarrow> bool \<Rightarrow> camera_rig \<Rightarrow> camera_rig" where
  "CameraController targetPosition tooltipPosition controls rig =
     (case targetPosition of
        None \<Rightarrow> rig
      | Some targetVec \<Rightarrow>
          (case tooltipPosition of
             None \<Rightarrow> rig
           | Some tooltipVec \<Rightarrow>
               if \<not> controls then rig
               else
                 let cameraPosition = cameraDestination targetVec tooltipVec;
                     currentPosition = camera_position rig;
                     posTween = Tween_easing Cubic_InOut
                                  (Tween_to cameraPosition 1500 (Tween currentPosition))
                 in rig \<lparr> controls_target := (0, 0, 0),
                          posTween := Some (Tween_start posTween) \<rparr>))"

definition initial_rig :: camera_rig where
  "initial_rig = \<lparr> camera_position = (0, 15, 25), controls_target = (0, 0, 0), posTween = None \<rparr>"

text \<open>
  \<open>NetworkTopology\<close> renders \<open>CameraController\<close> with \<open>selectedTarget\<close> and
  \<open>selectedTooltip\<close>; the orbit controls are there.
\<close>

definition camera_effect :: "selection \<Rightarrow> camera_rig \<Rightarrow> camera_rig" where
  "camera_effect sel rig = CameraController (selectedTarget sel) (selectedTooltip sel) True rig"

text \<open>
  One call of \<open>TWEEN.update\<close>, \<open>elapsedMs\<close> after the tween was started: \<open>onUpdate\<close> copies
  the value written into the camera's position.
\<close>

definition TWEEN_update :: "real \<Rightarrow> camera_rig \<Rightarrow> camera_rig" where
  "TWEEN_update elapsedMs rig =
     (case posTween rig of
        None \<Rightarrow> rig
      | Some tw \<Rightarrow>
          if \<not> tween_isPlaying tw then rig
          else if elapsedMs < 0 then rig
          else rig \<lparr> camera_position := tween_value tw elapsedMs \<rparr>)"

section \<open>Properties of the spherical layout\<close>

lemma spiral_y_bounds:
  assumes "2 \<le> N" "i < N"
  shows "(spiral_y N i)\<^sup>2 \<le> 1"
proof -
  have pos: "0 < real N - 1" using assms by simp
  have "real i \<le> real N - 1" using assms by linarith
  then have "real i / (real N - 1) \<le> 1" using pos by (simp add: divide_le_eq)
  moreover have "0 \<le> real i / (real N - 1)" using pos by simp
  ultimately have "- 1 \<le> spiral_y N i" "spiral_y N i \<le> 1"
    by (simp_all add: spiral_y_def)
  then show ?thesis by (simp add: abs_square_le_1 abs_le_iff)
qed

lemma spiral_y_inj:
  assumes "2 \<le> N" "spiral_y N i = spiral_y N j"
  shows "i = j"
proof -
  have "real N - 1 \<noteq> 0" using assms by simp
  with assms(2) show ?thesis by (simp add: spiral_y_def)
qed

lemma spiral_point_norm:
  assumes "2 \<le> N" "i < N"
  shows "(fst (spiral_point N i))\<^sup>2 + (fst (snd (spiral_point N i)))\<^sup>2
           + (snd (snd (spiral_point N i)))\<^sup>2 = 1"
proof -
  let ?y = "spiral_y N i"
  let ?t = "real i * (pi * (3 - sqrt 5))"
  have r: "(sqrt (1 - ?y\<^sup>2))\<^sup>2 = 1 - ?y\<^sup>2"
    using spiral_y_bounds [OF assms] by simp
  have split: "(c * q)\<^sup>2 + y\<^sup>2 + (s * q)\<^sup>2 = (c\<^sup>2 + s\<^sup>2) * q\<^sup>2 + y\<^sup>2" for c s q y :: real
    by (simp add: power_mult_distrib distrib_right)
  have "(cos ?t * sqrt (1 - ?y\<^sup>2))\<^sup>2 + ?y\<^sup>2 + (sin ?t * sqrt (1 - ?y\<^sup>2))\<^sup>2
          = ((cos ?t)\<^sup>2 + (sin ?t)\<^sup>2) * (sqrt (1 - ?y\<^sup>2))\<^sup>2 + ?y\<^sup>2"
    by (rule split)
  also have "\<dots> = 1" by (simp only: sin_cos_squared_add2 r) simp
  finally show ?thesis by (simp add: spiral_point_def)
qed

lemma sphere_point_closed_form:
  assumes "2 \<le> N" "i < N"
  shows "sphere_point N R i =
           (Some (fst (spiral_point N i) * R),
            Some (fst (snd (spiral_point N i)) * R),
            Some (snd (snd (spiral_point N i)) * R))"
proof -
  have nz: "real N - 1 \<noteq> 0" using assms by simp
  have y: "n_sub (Some 1) (n_mul (js_div (real i) (real N - 1)) (Some 2)) = Some (spiral_y N i)"
    using nz by (simp add: js_div_def n_mul_def n_sub_def spiral_y_def)
  have nneg: "\<not> 1 - spiral_y N i * spiral_y N i < 0"
    using spiral_y_bounds [OF assms] by (simp add: power2_eq_square)
  have r: "n_sqrt (n_sub (Some 1) (n_mul (Some (spiral_y N i)) (Some (spiral_y N i))))
             = Some (sqrt (1 - (spiral_y N i)\<^sup>2))"
    using nneg by (simp add: n_sqrt_def n_sub_def n_mul_def power2_eq_square)
  show ?thesis
    unfolding sphere_point_def Let_def y r
    by (simp add: n_mul_def spiral_point_def golden_angle_def mult.commute)
qed

lemma sphere_point_main_closed_form:
  assumes "2 \<le> N" "i < N"
  shows "sphere_point_main N i =
           (Some (fst (spiral_point N i)),
            Some (fst (snd (spiral_point N i))),
            Some (snd (snd (spiral_point N i))))"
proof -
  have nz: "real N - 1 \<noteq> 0" using assms by simp
  have y: "n_sub (Some 1) (n_mul (js_div (real i) (real N - 1)) (Some 2)) = Some (spiral_y N i)"
    using nz by (simp add: js_div_def n_mul_def n_sub_def spiral_y_def)
  have nneg: "\<not> 1 - spiral_y N i * spiral_y N i < 0"
    using spiral_y_bounds [OF assms] by (simp add: power2_eq_square)
  have r: "n_sqrt (n_sub (Some 1) (n_mul (Some (spiral_y N i)) (Some (spiral_y N i))))
             = Some (sqrt (1 - (spiral_y N i)\<^sup>2))"
    using nneg by (simp add: n_sqrt_def n_sub_def n_mul_def power2_eq_square)
  show ?thesis
    unfolding sphere_point_main_def Let_def y r
    by (simp add: n_mul_def spiral_point_def golden_angle_def mult.commute)
qed

lemma distributePointsOnSphere_nth:
  assumes "2 \<le> N" "i < N"
  shows "distributePointsOnSphere N R ! i =
           (Some (fst (spiral_point N i) * R),
            Some (fst (snd (spiral_point N i)) * R),
            Some (snd (snd (spiral_point N i)) * R))"
  using assms by (simp add: distributePointsOnSphere_def sphere_point_closed_form)

lemma distributePointsOnSphere_main_nth:
  assumes "2 \<le> N" "i < N"
  shows "distributePointsOnSphere_main N ! i =
           (Some (fst (spiral_point N i)),
            Some (fst (snd (spiral_point N i))),
            Some (snd (snd (spiral_point N i))))"
  using assms by (simp add: distributePointsOnSphere_main_def sphere_point_main_closed_form)

lemma distributePointsOnSphere_distinct:
  assumes "2 \<le> N" "R \<noteq> 0"
  shows "distinct (distributePointsOnSphere N R)"
proof -
  have "i = j" if "i < N" "j < N"
    "distributePointsOnSphere N R ! i = distributePointsOnSphere N R ! j" for i j
  proof -
    from that have "fst (snd (spiral_point N i)) * R = fst (snd (spiral_point N j)) * R"
      by (simp add: distributePointsOnSphere_nth [OF assms(1)])
    with assms(2) have "spiral_y N i = spiral_y N j"
      by (simp add: spiral_point_def)
    with assms(1) show ?thesis by (rule spiral_y_inj)
  qed
  then show ?thesis
    by (simp add: distinct_conv_nth distributePointsOnSphere_def del: nth_map)
      (metis distributePointsOnSphere_def length_map length_upt diff_zero)
qed

lemma distributePointsOnSphere_main_distinct:
  assumes "2 \<le> N"
  shows "distinct (distributePointsOnSphere_main N)"
proof -
  have "i = j" if "i < N" "j < N"
    "distributePointsOnSphere_main N ! i = distributePointsOnSphere_main N ! j" for i j
  proof -
    from that have "spiral_y N i = spiral_y N j"
      by (simp add: distributePointsOnSphere_main_nth [OF assms(1)] spiral_point_def)
    with assms(1) show ?thesis by (rule spiral_y_inj)
  qed
  then show ?thesis
    by (simp add: distinct_conv_nth distributePointsOnSphere_main_def del: nth_map)
      (metis distributePointsOnSphere_main_def length_map length_upt diff_zero)
qed

lemma scaled_norm:
  fixes x y z R :: real
  assumes "x\<^sup>2 + y\<^sup>2 + z\<^sup>2 = 1" "0 < R"
  shows "sqrt ((x * R)\<^sup>2 + (y * R)\<^sup>2 + (z * R)\<^sup>2) = R"
proof -
  have "(x * R)\<^sup>2 + (y * R)\<^sup>2 + (z * R)\<^sup>2 = (x\<^sup>2 + y\<^sup>2 + z\<^sup>2) * R\<^sup>2"
    by (simp add: power_mult_distrib distrib_right)
  also have "\<dots> = R\<^sup>2" by (simp add: assms(1))
  finally show ?thesis using assms(2) by simp
qed

text \<open>
  C2. For every node count \<open>N \<ge> 2\<close> and every radius \<open>R > 0\<close> the layout of
  \<open>NetworkTopology.tsx\<close> returns exactly \<open>N\<close> positions, pairwise distinct; the position
  at index \<open>i\<close> is the golden-angle spiral point \<open>y = 1 - 2i/(N-1)\<close>,
  \<open>radius_at_y = sqrt (1 - y\<^sup>2)\<close>, \<open>theta = i * pi * (3 - sqrt 5)\<close>, scaled by \<open>R\<close>, no
  component is \<open>NaN\<close>, and its distance from the origin is \<open>R\<close>. The copy in \<open>main.tsx\<close>
  returns the same \<open>N\<close> distinct spiral points unscaled, at distance 1. (Exact arithmetic:
  the claim's floating-point epsilon is the rounding the model leaves out.)
\<close>

theorem spherical_layout_on_sphere:
  "2 \<le> N \<Longrightarrow> 0 < R \<Longrightarrow>
     length (distributePointsOnSphere N R) = N
   \<and> distinct (distributePointsOnSphere N R)
   \<and> (\<forall>i<N. \<exists>x y z.
         spiral_point N i = (x, y, z)
       \<and> distributePointsOnSphere N R ! i = (Some (x * R), Some (y * R), Some (z * R))
       \<and> sqrt ((x * R)\<^sup>2 + (y * R)\<^sup>2 + (z * R)\<^sup>2) = R)
   \<and> length (distributePointsOnSphere_main N) = N
   \<and> distinct (distributePointsOnSphere_main N)
   \<and> (\<forall>i<N. \<exists>x y z.
         spiral_point N i = (x, y, z)
       \<and> distributePointsOnSphere_main N ! i = (Some x, Some y, Some z)
       \<and> sqrt (x\<^sup>2 + y\<^sup>2 + z\<^sup>2) = 1)"
proof -
  assume N: "2 \<le> N" and R: "0 < R"
  have len: "length (distributePointsOnSphere N R) = N"
    by (simp add: distributePointsOnSphere_def)
  have len_main: "length (distributePointsOnSphere_main N) = N"
    by (simp add: distributePointsOnSphere_main_def)
  have dist: "distinct (distributePointsOnSphere N R)"
    using N R by (simp add: distributePointsOnSphere_distinct)
  have dist_main: "distinct (distributePointsOnSphere_main N)"
    using N by (rule distributePointsOnSphere_main_distinct)
  have pts: "\<exists>x y z. spiral_point N i = (x, y, z)
       \<and> distributePointsOnSphere N R ! i = (Some (x * R), Some (y * R), Some (z * R))
       \<and> sqrt ((x * R)\<^sup>2 + (y * R)\<^sup>2 + (z * R)\<^sup>2) = R" if "i < N" for i
  proof -
    obtain x y z where p: "spiral_point N i = (x, y, z)" by (cases "spiral_point N i") auto
    have unit: "x\<^sup>2 + y\<^sup>2 + z\<^sup>2 = 1" using spiral_point_norm [OF N that] by (simp add: p)
    have "distributePointsOnSphere N R ! i = (Some (x * R), Some (y * R), Some (z * R))"
      using distributePointsOnSphere_nth [OF N that, of R] by (simp add: p)
    moreover have "sqrt ((x * R)\<^sup>2 + (y * R)\<^sup>2 + (z * R)\<^sup>2) = R"
      using unit R by (rule scaled_norm)
    ultimately show ?thesis using p by blast
  qed
  have pts_main: "\<exists>x y z. spiral_point N i = (x, y, z)
       \<and> distributePointsOnSphere_main N ! i = (Some x, Some y, Some z)
       \<and> sqrt (x\<^sup>2 + y\<^sup>2 + z\<^sup>2) = 1" if "i < N" for i
  proof -
    obtain x y z where p: "spiral_point N i = (x, y, z)" by (cases "spiral_point N i") auto
    have unit: "x\<^sup>2 + y\<^sup>2 + z\<^sup>2 = 1" using spiral_point_norm [OF N that] by (simp add: p)
    have "distributePointsOnSphere_main N ! i = (Some x, Some y, Some z)"
      using distributePointsOnSphere_main_nth [OF N that] by (simp add: p)
    moreover have "sqrt (x\<^sup>2 + y\<^sup>2 + z\<^sup>2) = 1" by (simp add: unit)
    ultimately show ?thesis using p by blast
  qed
  show ?thesis using len dist pts len_main dist_main pts_main by blast
qed

text \<open>
  The layout the widget itself asks for: eight nodes on the sphere of radius 8.
\<close>

theorem spherical_layout_on_sphere_witness:
  "(2::nat) \<le> 8 \<and> (0::real) < 8
   \<and> length (distributePointsOnSphere 8 8) = 8
   \<and> distinct (distributePointsOnSphere 8 8)
   \<and> length (distributePointsOnSphere_main 8) = 8
   \<and> distinct (distributePointsOnSphere_main 8)"
  using spherical_layout_on_sphere [of 8 8] by simp




section \<open>Properties of the tooltip auto-cycle\<close>

lemma entities_nth_node:
  "i < length nodes \<Longrightarrow> entities nodes links ! i = NodeEntity (nodes ! i)"
  by (simp add: entities_def nth_append)

lemma entities_nth_link:
  "\<not> i < length nodes \<Longrightarrow> i < length nodes + length links \<Longrightarrow>
     entities nodes links ! i = LinkEntity (links ! (i - length nodes))"
  by (simp add: entities_def nth_append)

text \<open>
  One call of the timer callback on a non-empty topology: no exception, the index moves
  to the next position of the circle, and the tooltip becomes that of the selected
  entity, or stays as it was when the entity has none to show.
\<close>

lemma moveTooltip_step:
  assumes "0 < length nodes + length links"
  shows "moveTooltip nodes links st =
           Inr \<lparr> currentIndex = (currentIndex st + 1) mod (length nodes + length links),
                 tooltipData =
                   (case shown nodes (entities nodes links ! ((currentIndex st + 1) mod (length nodes + length links))) of
                      None \<Rightarrow> tooltipData st
                    | Some tip \<Rightarrow> Some tip) \<rparr>"
proof -
  let ?total = "length nodes + length links"
  let ?idx = "(currentIndex st + 1) mod ?total"
  have lt: "?idx < ?total" using assms by simp
  show ?thesis
  proof (cases "?idx < length nodes")
    case True
    then show ?thesis
      using assms by (simp add: moveTooltip_def Let_def entities_nth_node shown_def)
  next
    case False
    with lt have li: "?idx - length nodes < length links" by linarith
    show ?thesis
      using assms False lt li
      by (simp add: moveTooltip_def Let_def entities_nth_link shown_def split: option.splits)
  qed
qed

lemma ticks_index_bounded:
  assumes "0 < length nodes + length links" "currentIndex st < length nodes + length links"
  shows "\<exists>st'. ticks nodes links n st = Inr st'
           \<and> currentIndex st' = (currentIndex st + n) mod (length nodes + length links)"
  using assms(2)
proof (induction n arbitrary: st)
  case 0
  then show ?case by simp
next
  case (Suc n)
  let ?total = "length nodes + length links"
  obtain st1 where st1: "moveTooltip nodes links st = Inr st1"
    and idx1: "currentIndex st1 = (currentIndex st + 1) mod ?total"
    using moveTooltip_step [OF assms(1), of st] by simp
  have "currentIndex st1 < ?total" using assms(1) idx1 by simp
  from Suc.IH [OF this] obtain st' where
    run: "ticks nodes links n st1 = Inr st'" and
    idx: "currentIndex st' = (currentIndex st1 + n) mod ?total" by blast
  have "(currentIndex st1 + n) mod ?total = (currentIndex st + Suc n) mod ?total"
    unfolding idx1 by (simp add: mod_add_left_eq add.assoc)
  with run idx st1 show ?case by simp
qed

lemma ticks_index:
  assumes "0 < length nodes + length links"
  shows "\<exists>st'. ticks nodes links (Suc n) st = Inr st'
           \<and> currentIndex st' = (currentIndex st + Suc n) mod (length nodes + length links)"
proof -
  let ?total = "length nodes + length links"
  obtain st1 where st1: "moveTooltip nodes links st = Inr st1"
    and idx1: "currentIndex st1 = (currentIndex st + 1) mod ?total"
    using moveTooltip_step [OF assms, of st] by simp
  have "currentIndex st1 < ?total" using assms idx1 by simp
  from ticks_index_bounded [OF assms this, of n] obtain st' where
    run: "ticks nodes links n st1 = Inr st'" and
    idx: "currentIndex st' = (currentIndex st1 + n) mod ?total" by blast
  have "(currentIndex st1 + n) mod ?total = (currentIndex st + Suc n) mod ?total"
    unfolding idx1 by (simp add: mod_add_left_eq add.assoc)
  with run idx st1 show ?thesis by simp
qed

lemma ticks_Suc_right:
  "ticks nodes links (Suc n) st =
     (case ticks nodes links n st of Inl e \<Rightarrow> Inl e | Inr st' \<Rightarrow> moveTooltip nodes links st')"
proof (induction n arbitrary: st)
  case 0
  then show ?case by (simp split: sum.splits)
next
  case (Suc n)
  show ?case
  proof (cases "moveTooltip nodes links st")
    case (Inl e)
    then show ?thesis by simp
  next
    case (Inr st1)
    then show ?thesis using Suc.IH [of st1] by simp
  qed
qed





lemma find_missing_id:
  "a \<notin> set (map node_id nodes) \<Longrightarrow> find (\<lambda>n. node_id n = a) nodes = None"
  by (induction nodes) auto

lemma shown_malformed:
  assumes "link_source l \<notin> set (map node_id nodes) \<or> link_target l \<notin> set (map node_id nodes)"
  shows "shown nodes (LinkEntity l) = None"
  using assms
proof
  assume "link_source l \<notin> set (map node_id nodes)"
  then have "find (\<lambda>n. node_id n = link_source l) nodes = None" by (rule find_missing_id)
  then show ?thesis by (simp add: shown_def)
next
  assume "link_target l \<notin> set (map node_id nodes)"
  then have "find (\<lambda>n. node_id n = link_target l) nodes = None" by (rule find_missing_id)
  then show ?thesis by (simp add: shown_def split: option.splits)
qed

lemma render_link_malformed:
  assumes "link_source l \<notin> set (map node_id nodes) \<or> link_target l \<notin> set (map node_id nodes)"
  shows "render_link (updatePositions nodes centers) l = None"
  using assms by (auto simp: render_link_def updatePositions_def split: option.splits)

text \<open>
  C6. A link whose source or target id is the id of no node is passed over in silence.
  It is not rendered: its slot in the list of rendered links is \<open>null\<close>. The call of the
  timer callback that selects it throws nothing, moves the index on to it and leaves the
  tooltip on display as it was. The calls that follow go on round the circle as on any
  other topology, none of them throwing.
\<close>

theorem malformed_link_skipped:
  "k < length links \<Longrightarrow>
   link_source (links ! k) \<notin> set (map node_id nodes) \<or> link_target (links ! k) \<notin> set (map node_id nodes) \<Longrightarrow>
     render_links nodes links centers ! k = None
   \<and> (\<forall>st. (currentIndex st + 1) mod (length nodes + length links) = length nodes + k \<longrightarrow>
         moveTooltip nodes links st = Inr (st \<lparr> currentIndex := length nodes + k \<rparr>))
   \<and> (\<forall>st n. \<exists>st'. ticks nodes links (Suc n) st = Inr st'
         \<and> currentIndex st' = (currentIndex st + Suc n) mod (length nodes + length links))"
proof -
  assume k: "k < length links"
    and bad: "link_source (links ! k) \<notin> set (map node_id nodes) \<or> link_target (links ! k) \<notin> set (map node_id nodes)"
  have pos: "0 < length nodes + length links" using k by linarith
  have render: "render_links nodes links centers ! k = None"
    using k render_link_malformed [OF bad] by (simp add: render_links_def)
  have skip: "moveTooltip nodes links st = Inr (st \<lparr> currentIndex := length nodes + k \<rparr>)"
    if "(currentIndex st + 1) mod (length nodes + length links) = length nodes + k" for st
  proof -
    have "entities nodes links ! (length nodes + k) = LinkEntity (links ! k)"
      using k by (simp add: entities_nth_link)
    then show ?thesis
      using moveTooltip_step [OF pos, of st] that shown_malformed [OF bad] by simp
  qed
  have go_on: "\<exists>st'. ticks nodes links (Suc n) st = Inr st'
         \<and> currentIndex st' = (currentIndex st + Suc n) mod (length nodes + length links)" for st n
    by (rule ticks_index [OF pos])
  show ?thesis using render skip go_on by blast
qed

theorem malformed_link_skipped_witness:
  "(0::nat) < length [linkAZ]
   \<and> link_target ([linkAZ] ! 0) \<notin> set (map node_id [nodeA])
   \<and> render_links [nodeA] [linkAZ] (\<lambda>i. Some (8, 0, 0)) ! 0 = None
   \<and> moveTooltip [nodeA] [linkAZ] initial_hook = Inr \<lparr> currentIndex = 1, tooltipData = None \<rparr>
   \<and> (\<exists>st'. ticks [nodeA] [linkAZ] (Suc 1) initial_hook = Inr st' \<and> currentIndex st' = 0)"
proof -
  have k: "(0::nat) < length [linkAZ]" by simp
  have z: "link_target ([linkAZ] ! 0) \<notin> set (map node_id [nodeA])"
    by (simp add: linkAZ_def nodeA_def)
  then have bad: "link_source ([linkAZ] ! 0) \<notin> set (map node_id [nodeA])
                \<or> link_target ([linkAZ] ! 0) \<notin> set (map node_id [nodeA])" by (rule disjI2)
  note c = malformed_link_skipped [OF k bad, of "\<lambda>i. Some (8, 0, 0)"]
  have r: "render_links [nodeA] [linkAZ] (\<lambda>i. Some (8, 0, 0)) ! 0 = None"
    by (rule c [THEN conjunct1])
  have "(currentIndex initial_hook + 1) mod (length [nodeA] + length [linkAZ]) = length [nodeA] + 0"
    by (simp add: initial_hook_def)
  then have "moveTooltip [nodeA] [linkAZ] initial_hook = Inr (initial_hook \<lparr> currentIndex := length [nodeA] + 0 \<rparr>)"
    by (rule c [THEN conjunct2, THEN conjunct1, rule_format])
  then have m: "moveTooltip [nodeA] [linkAZ] initial_hook = Inr \<lparr> currentIndex = 1, tooltipData = None \<rparr>"
    by (simp add: initial_hook_def)
  have "\<exists>st'. ticks [nodeA] [linkAZ] (Suc 1) initial_hook = Inr st'
         \<and> currentIndex st' = (currentIndex initial_hook + Suc 1) mod (length [nodeA] + length [linkAZ])"
    by (rule c [THEN conjunct2, THEN conjunct2, rule_format])
  then have t: "\<exists>st'. ticks [nodeA] [linkAZ] (Suc 1) initial_hook = Inr st' \<and> currentIndex st' = 0"
    by (simp add: initial_hook_def)
  from k z r m t show ?thesis by (intro conjI)
qed

lemma case_option_id: "(case x of None \<Rightarrow> None | Some t \<Rightarrow> Some t) = x"
  by (cases x) simp_all

lemma initial_hook_fields:
  "currentIndex initial_hook = 0" "tooltipData initial_hook = None"
  by (simp_all add: initial_hook_def)

lemma ticks_one: "ticks nodes links (Suc 0) st = moveTooltip nodes links st"
  by (simp split: sum.splits)

lemma mount_state:
  assumes "0 < length nodes + length links"
  shows "useTooltipAutoMovement nodes links 0 =
           Inr \<lparr> currentIndex = 1 mod (length nodes + length links),
                 tooltipData = shown nodes (entities nodes links ! (1 mod (length nodes + length links))) \<rparr>"
proof -
  have ne: "\<not> (length nodes = 0 \<and> length links = 0)" using assms by auto
  have "useTooltipAutoMovement nodes links 0 = ticks nodes links (Suc 0) initial_hook"
    unfolding useTooltipAutoMovement_def using ne by (simp only: if_False)
  also have "\<dots> = moveTooltip nodes links initial_hook" by (rule ticks_one)
  also have "\<dots> = Inr \<lparr> currentIndex = 1 mod (length nodes + length links),
                 tooltipData = shown nodes (entities nodes links ! (1 mod (length nodes + length links))) \<rparr>"
    using moveTooltip_step [OF assms, of initial_hook]
    by (simp only: initial_hook_fields add_0 case_option_id)
  finally show ?thesis .
qed

lemma mount_index:
  assumes "0 < length nodes + length links"
  shows "\<exists>st. useTooltipAutoMovement nodes links n = Inr st
           \<and> currentIndex st = Suc n mod (length nodes + length links)"
  using ticks_index [OF assms, of n initial_hook] assms
  by (simp add: useTooltipAutoMovement_def initial_hook_def)

text \<open>
  C10, as amended. The hook increments the index before it selects, on the call made at
  mounting as on every later one. On a topology of at least two entities the call at
  mounting therefore selects the second entity of the sequence "nodes, then links", and
  what is on display after it is that entity's tooltip: the first tooltip ever displayed
  is the second entity's whenever that entity is a node or a link whose two ends exist.
  Position 0, the first node, is selected exactly by the calls whose number is a multiple
  of \<open>|nodes| + |links|\<close>, so for the first time by the call that ends the first period.
\<close>

theorem first_tooltip_is_second_entity:
  "2 \<le> length nodes + length links \<Longrightarrow>
     (\<exists>st. useTooltipAutoMovement nodes links 0 = Inr st
        \<and> currentIndex st = 1
        \<and> tooltipData st = shown nodes (entities nodes links ! 1))
   \<and> (\<forall>tip. shown nodes (entities nodes links ! 1) = Some tip \<longrightarrow>
         first_displayed nodes links = Some tip)
   \<and> (\<forall>n. \<exists>st. useTooltipAutoMovement nodes links n = Inr st
         \<and> currentIndex st = Suc n mod (length nodes + length links)
         \<and> (currentIndex st = 0 \<longleftrightarrow> (length nodes + length links) dvd Suc n))"
proof -
  assume two: "2 \<le> length nodes + length links"
  let ?total = "length nodes + length links"
  have pos: "0 < ?total" using two by linarith
  have one: "1 mod ?total = 1" using two by simp
  have mount: "useTooltipAutoMovement nodes links 0 =
      Inr \<lparr> currentIndex = 1, tooltipData = shown nodes (entities nodes links ! 1) \<rparr>"
    using mount_state [OF pos] by (simp only: one)
  then have a: "\<exists>st. useTooltipAutoMovement nodes links 0 = Inr st
        \<and> currentIndex st = 1
        \<and> tooltipData st = shown nodes (entities nodes links ! 1)" by simp
  have b: "first_displayed nodes links = Some tip"
    if "shown nodes (entities nodes links ! 1) = Some tip" for tip
  proof -
    have "displayed_after nodes links 0 = Some tip"
      using mount that by (simp add: displayed_after_def)
    moreover have "[0..<?total] = 0 # [1..<?total]"
      using pos by (simp add: upt_conv_Cons)
    ultimately show ?thesis by (simp add: first_displayed_def)
  qed
  have c: "\<exists>st. useTooltipAutoMovement nodes links n = Inr st
         \<and> currentIndex st = Suc n mod ?total
         \<and> (currentIndex st = 0 \<longleftrightarrow> ?total dvd Suc n)" for n
    using mount_index [OF pos, of n] by (auto simp: mod_eq_0_iff_dvd)
  show ?thesis using a b c by blast
qed

theorem first_tooltip_is_second_entity_witness:
  "(2::nat) \<le> length [nodeA, nodeB] + length [linkAB]
   \<and> shown [nodeA, nodeB] (entities [nodeA, nodeB] [linkAB] ! 1) = Some (node_tooltip nodeB)
   \<and> first_displayed [nodeA, nodeB] [linkAB] = Some (node_tooltip nodeB)
   \<and> (\<exists>st. useTooltipAutoMovement [nodeA, nodeB] [linkAB] 2 = Inr st \<and> currentIndex st = 0)"
proof -
  have two: "(2::nat) \<le> length [nodeA, nodeB] + length [linkAB]" by simp
  note c = first_tooltip_is_second_entity [OF two]
  have s: "shown [nodeA, nodeB] (entities [nodeA, nodeB] [linkAB] ! 1) = Some (node_tooltip nodeB)"
    by (simp add: entities_def shown_def)
  then have f: "first_displayed [nodeA, nodeB] [linkAB] = Some (node_tooltip nodeB)"
    by (rule c [THEN conjunct2, THEN conjunct1, rule_format])
  have "\<exists>st. useTooltipAutoMovement [nodeA, nodeB] [linkAB] 2 = Inr st
         \<and> currentIndex st = Suc 2 mod (length [nodeA, nodeB] + length [linkAB])
         \<and> (currentIndex st = 0 \<longleftrightarrow> (length [nodeA, nodeB] + length [linkAB]) dvd Suc 2)"
    by (rule c [THEN conjunct2, THEN conjunct2, rule_format])
  then have w: "\<exists>st. useTooltipAutoMovement [nodeA, nodeB] [linkAB] 2 = Inr st \<and> currentIndex st = 0"
    by auto
  from two s f w show ?thesis by (intro conjI)
qed

text \<open>
  The claim as stated, for every topology of at least two entities, fails where the
  second entity is a link with a missing end: on the one node A and the one link from A to
  the unknown Z the call at mounting selects the link and displays nothing, and the first
  tooltip ever on display is that of the first node.
\<close>

theorem first_tooltip_counterexample:
  "(2::nat) \<le> length [nodeA] + length [linkAZ]
   \<and> shown [nodeA] (entities [nodeA] [linkAZ] ! 1) = None
   \<and> shown [nodeA] (entities [nodeA] [linkAZ] ! 0) = Some (node_tooltip nodeA)
   \<and> displayed_after [nodeA] [linkAZ] 0 = None
   \<and> first_displayed [nodeA] [linkAZ] = Some (node_tooltip nodeA)"
proof -
  have pos: "0 < length [nodeA] + length [linkAZ]" by simp
  have s1: "shown [nodeA] (entities [nodeA] [linkAZ] ! 1) = None"
    by (simp add: entities_def shown_def linkAZ_def nodeA_def)
  have s0: "shown [nodeA] (entities [nodeA] [linkAZ] ! 0) = Some (node_tooltip nodeA)"
    by (simp add: entities_def shown_def)
  have m0: "useTooltipAutoMovement [nodeA] [linkAZ] 0 = Inr \<lparr> currentIndex = 1, tooltipData = None \<rparr>"
    using mount_state [OF pos] s1 by simp
  then have d0: "displayed_after [nodeA] [linkAZ] 0 = None"
    by (simp add: displayed_after_def)
  have "ticks [nodeA] [linkAZ] (Suc 0) initial_hook = Inr \<lparr> currentIndex = 1, tooltipData = None \<rparr>"
    using m0 by (simp add: useTooltipAutoMovement_def)
  moreover have "moveTooltip [nodeA] [linkAZ] \<lparr> currentIndex = 1, tooltipData = None \<rparr> =
          Inr \<lparr> currentIndex = 0, tooltipData = Some (node_tooltip nodeA) \<rparr>"
    using moveTooltip_step [OF pos, of "\<lparr> currentIndex = 1, tooltipData = None \<rparr>"] s0 by simp
  ultimately have "ticks [nodeA] [linkAZ] (Suc (Suc 0)) initial_hook =
          Inr \<lparr> currentIndex = 0, tooltipData = Some (node_tooltip nodeA) \<rparr>"
    by (simp only: ticks_Suc_right [of _ _ "Suc 0"] sum.case)
  then have d1: "displayed_after [nodeA] [linkAZ] 1 = Some (node_tooltip nodeA)"
    by (simp add: displayed_after_def useTooltipAutoMovement_def)
  have "[0..<length [nodeA] + length [linkAZ]] = [0, 1]"
    by (simp add: upt_conv_Cons)
  then have f: "first_displayed [nodeA] [linkAZ] = Some (node_tooltip nodeA)"
    using d0 d1 by (simp add: first_displayed_def)
  from s1 s0 d0 f show ?thesis by simp
qed

section \<open>Properties of the particle update\<close>

lemma particle_step_fields:
  assumes "i < length (progress st)"
  shows "progress (particle_step fround random a b r speed delta st i) =
           (progress st)[i := (if fround (progress st ! i + speed * delta) > 1 then 0
                               else fround (progress st ! i + speed * delta))]"
    and "offsets (particle_step fround random a b r speed delta st i) =
           (if fround (progress st ! i + speed * delta) > 1
            then (offsets st)[i := createRandomOffset random (draws st) (1 / 2)]
            else offsets st)"
    and "draws (particle_step fround random a b r speed delta st i) =
           (if fround (progress st ! i + speed * delta) > 1 then draws st + 3 else draws st)"
  using assms by (simp_all add: particle_step_def Let_def)

text \<open>
  The invariant of the loop after \<open>n\<close> rounds: the particles below \<open>n\<close> are updated, the
  others untouched, and three random numbers are used up for every wrap.
\<close>

lemma particle_loop_invariant:
  fixes fround :: "real \<Rightarrow> real" and st :: flow and speed delta :: real
  defines "adv \<equiv> \<lambda>j. fround (progress st ! j + speed * delta)"
  assumes "n \<le> length (progress st)" "length (offsets st) = length (progress st)"
  shows "length (progress (foldl (particle_step fround random a b r speed delta) st [0..<n])) = length (progress st)
       \<and> length (offsets (foldl (particle_step fround random a b r speed delta) st [0..<n])) = length (progress st)
       \<and> draws (foldl (particle_step fround random a b r speed delta) st [0..<n]) =
            draws st + 3 * length (filter (\<lambda>j. adv j > 1) [0..<n])
       \<and> (\<forall>j<n. progress (foldl (particle_step fround random a b r speed delta) st [0..<n]) ! j =
                    (if adv j > 1 then 0 else adv j)
                \<and> offsets (foldl (particle_step fround random a b r speed delta) st [0..<n]) ! j =
                    (if adv j > 1
                     then createRandomOffset random (draws st + 3 * length (filter (\<lambda>j. adv j > 1) [0..<j])) (1 / 2)
                     else offsets st ! j))
       \<and> (\<forall>j\<ge>n. progress (foldl (particle_step fround random a b r speed delta) st [0..<n]) ! j = progress st ! j
                \<and> offsets (foldl (particle_step fround random a b r speed delta) st [0..<n]) ! j = offsets st ! j)"
  using assms(2)
proof (induction n)
  case 0
  then show ?case using assms(3) by simp
next
  case (Suc n)
  let ?step = "particle_step fround random a b r speed delta"
  let ?s = "foldl ?step st [0..<n]"
  from Suc.prems have n: "n < length (progress st)" by simp
  then have "n \<le> length (progress st)" by simp
  from Suc.IH [OF this] have
    lp: "length (progress ?s) = length (progress st)" and
    lo: "length (offsets ?s) = length (progress st)" and
    dr: "draws ?s = draws st + 3 * length (filter (\<lambda>j. adv j > 1) [0..<n])" and
    below: "\<And>j. j < n \<Longrightarrow> progress ?s ! j = (if adv j > 1 then 0 else adv j)
                \<and> offsets ?s ! j =
                    (if adv j > 1
                     then createRandomOffset random (draws st + 3 * length (filter (\<lambda>j. adv j > 1) [0..<j])) (1 / 2)
                     else offsets st ! j)" and
    above: "\<And>j. n \<le> j \<Longrightarrow> progress ?s ! j = progress st ! j \<and> offsets ?s ! j = offsets st ! j"
    by blast+
  have unfold: "foldl ?step st [0..<Suc n] = ?step ?s n" by simp
  have here: "fround (progress ?s ! n + speed * delta) = adv n"
    using above [of n] by (simp add: adv_def)
  have nl: "n < length (progress ?s)" using n lp by simp
  note f = particle_step_fields [OF nl, of fround random a b r speed delta, unfolded here]
  have c1: "length (progress (?step ?s n)) = length (progress st)"
    by (simp add: f(1) lp)
  have c2: "length (offsets (?step ?s n)) = length (progress st)"
    by (simp add: f(2) lo)
  have c3: "draws (?step ?s n) = draws st + 3 * length (filter (\<lambda>j. adv j > 1) [0..<Suc n])"
    by (simp add: f(3) dr)
  have c4: "progress (?step ?s n) ! j = (if adv j > 1 then 0 else adv j)
          \<and> offsets (?step ?s n) ! j =
              (if adv j > 1
               then createRandomOffset random (draws st + 3 * length (filter (\<lambda>j. adv j > 1) [0..<j])) (1 / 2)
               else offsets st ! j)" if "j < Suc n" for j
  proof (cases "j = n")
    case True
    have "n < length (offsets ?s)" using n lo by simp
    then show ?thesis
      using True nl above [of n] by (simp add: f(1) f(2) dr)
  next
    case False
    with that have "j < n" by simp
    from below [OF this] False show ?thesis
      by (simp add: f(1) f(2))
  qed
  have c5: "progress (?step ?s n) ! j = progress st ! j \<and> offsets (?step ?s n) ! j = offsets st ! j"
    if "Suc n \<le> j" for j
  proof -
    from that have "n \<le> j" "j \<noteq> n" by simp_all
    with above [of j] show ?thesis by (simp add: f(1) f(2))
  qed
  show ?case unfolding unfold using c1 c2 c3 c4 c5 by blast
qed

lemma wraps_count_increases:
  assumes "j < i" "P j"
  shows "length (filter P [0..<j]) < length (filter P [0..<i])"
proof -
  have "[0..<i] = [0..<j] @ j # [Suc j..<i]"
    using assms(1) by (metis less_imp_le_nat upt_add_eq_append upt_conv_Cons le0 add_0 le_add_diff_inverse)
  then show ?thesis using assms(2) by simp
qed

text \<open>
  C3. In one frame every particle \<open>i\<close> is advanced by \<open>speed * delta\<close> (the sum is stored
  into the \<open>Float32Array\<close>). When the stored value exceeds 1 the particle's progress is
  set to exactly 0 and its offset is made anew from three values of \<open>Math.random\<close> that
  no one has been given before: the calls number \<open>k\<close>, \<open>k + 1\<close> and \<open>k + 2\<close>, where \<open>k\<close>
  is the number of calls made before the frame plus three for every particle before \<open>i\<close>
  that wrapped in it, each value less 0.5 and times the spread 0.5. Two particles that wrap
  in one frame use different calls, and the frame leaves the count of calls behind the
  last one used. A particle that does not wrap keeps the stored value and its offset.
  While \<open>points.current\<close> is unset the callback changes nothing.
\<close>

theorem particle_update:
  "length (progress st) = ip_count (getIntensityParams intensity) \<Longrightarrow>
   length (offsets st) = ip_count (getIntensityParams intensity) \<Longrightarrow>
   i < ip_count (getIntensityParams intensity) \<Longrightarrow>
     progress (useFrame fround random start endv intensity True time st) ! i =
       (if advanced fround intensity time st i > 1 then 0 else advanced fround intensity time st i)
   \<and> offsets (useFrame fround random start endv intensity True time st) ! i =
       (if advanced fround intensity time st i > 1
        then ((random (draws st + 3 * wraps_before fround intensity time st i) - 1 / 2) * (1 / 2),
              (random (draws st + 3 * wraps_before fround intensity time st i + 1) - 1 / 2) * (1 / 2),
              (random (draws st + 3 * wraps_before fround intensity time st i + 2) - 1 / 2) * (1 / 2))
        else offsets st ! i)
   \<and> (\<forall>j<i. advanced fround intensity time st j > 1 \<longrightarrow>
         draws st + 3 * wraps_before fround intensity time st j + 2
           < draws st + 3 * wraps_before fround intensity time st i)
   \<and> draws (useFrame fround random start endv intensity True time st) =
       draws st + 3 * wraps_before fround intensity time st (ip_count (getIntensityParams intensity))
   \<and> useFrame fround random start endv intensity False time st = st"
proof -
  assume lp: "length (progress st) = ip_count (getIntensityParams intensity)"
    and lo: "length (offsets st) = ip_count (getIntensityParams intensity)"
    and i: "i < ip_count (getIntensityParams intensity)"
  let ?count = "ip_count (getIntensityParams intensity)"
  let ?speed = "ip_speed (getIntensityParams intensity)"
  let ?st1 = "st \<lparr> lastTime := time \<rparr>"
  let ?loop = "foldl (particle_step fround random start endv (lengthV start) ?speed (frame_delta time st))
                 ?st1 [0..<?count]"
  have run: "useFrame fround random start endv intensity True time st = ?loop"
    by (simp add: useFrame_def frame_delta_def Let_def)
  have "?count \<le> length (progress ?st1)" "length (offsets ?st1) = length (progress ?st1)"
    using lp lo by simp_all
  note inv = particle_loop_invariant [OF this, where fround = fround and speed = ?speed
      and delta = "frame_delta time st" and random = random and a = start and b = endv
      and r = "lengthV start"]
  from inv have "\<forall>j<?count. progress ?loop ! j =
            (if fround (progress ?st1 ! j + ?speed * frame_delta time st) > 1 then 0
             else fround (progress ?st1 ! j + ?speed * frame_delta time st))
          \<and> offsets ?loop ! j =
            (if fround (progress ?st1 ! j + ?speed * frame_delta time st) > 1
             then createRandomOffset random
                    (draws ?st1 + 3 * length (filter (\<lambda>j. fround (progress ?st1 ! j + ?speed * frame_delta time st) > 1) [0..<j]))
                    (1 / 2)
             else offsets ?st1 ! j)"
    by blast
  with i have here: "progress ?loop ! i =
            (if advanced fround intensity time st i > 1 then 0 else advanced fround intensity time st i)
          \<and> offsets ?loop ! i =
            (if advanced fround intensity time st i > 1
             then ((random (draws st + 3 * wraps_before fround intensity time st i) - 1 / 2) * (1 / 2),
                   (random (draws st + 3 * wraps_before fround intensity time st i + 1) - 1 / 2) * (1 / 2),
                   (random (draws st + 3 * wraps_before fround intensity time st i + 2) - 1 / 2) * (1 / 2))
             else offsets st ! i)"
    by (simp add: advanced_def wraps_before_def createRandomOffset_def)
  from inv have "draws ?loop = draws ?st1
      + 3 * length (filter (\<lambda>j. fround (progress ?st1 ! j + ?speed * frame_delta time st) > 1) [0..<?count])"
    by blast
  then have used: "draws ?loop = draws st + 3 * wraps_before fround intensity time st ?count"
    by (simp add: advanced_def wraps_before_def)
  have apart: "draws st + 3 * wraps_before fround intensity time st j + 2
           < draws st + 3 * wraps_before fround intensity time st i"
    if "j < i" "advanced fround intensity time st j > 1" for j
  proof -
    have "wraps_before fround intensity time st j < wraps_before fround intensity time st i"
      unfolding wraps_before_def using that by (rule wraps_count_increases)
    then show ?thesis by linarith
  qed
  have off: "useFrame fround random start endv intensity False time st = st"
    by (simp add: useFrame_def)
  from here apart used off show ?thesis by (simp only: run) blast
qed

text \<open>
  In the run described above particle 0 stands at \<open>0.9 + 0.7 > 1\<close>: it restarts at 0 and
  its offset, made of calls 60 to 62 at the first render, is made anew of calls 244 to 246.
  Particle 59 stands at \<open>3/23 + 0.7 \<le> 1\<close> and keeps its offset.
\<close>

theorem particle_update_witness:
  "length (progress demo_flow) = ip_count (getIntensityParams High)
   \<and> length (offsets demo_flow) = ip_count (getIntensityParams High)
   \<and> (0::nat) < ip_count (getIntensityParams High)
   \<and> (59::nat) < ip_count (getIntensityParams High)
   \<and> offsets demo_flow ! 0 = (- (13 / 70), - (53 / 284), - (3 / 16))
   \<and> progress (useFrame (\<lambda>x. x) demo_random (8, 0, 0) (0, 8, 0) High True 2 demo_flow) ! 0 = 0
   \<and> offsets (useFrame (\<lambda>x. x) demo_random (8, 0, 0) (0, 8, 0) High True 2 demo_flow) ! 0
        = (- (59 / 254), - (79 / 340), - (119 / 512))
   \<and> progress (useFrame (\<lambda>x. x) demo_random (8, 0, 0) (0, 8, 0) High True 2 demo_flow) ! 59 = 191 / 230
   \<and> offsets (useFrame (\<lambda>x. x) demo_random (8, 0, 0) (0, 8, 0) High True 2 demo_flow) ! 59
        = offsets demo_flow ! 59"
proof -
  have lp: "length (progress demo_flow) = ip_count (getIntensityParams High)"
    by (simp add: demo_flow_def init_particles_def Let_def)
  have lo: "length (offsets demo_flow) = ip_count (getIntensityParams High)"
    by (simp add: demo_flow_def init_particles_def Let_def)
  have count: "ip_count (getIntensityParams High) = 60"
    by (simp add: getIntensityParams_def)
  have i0: "(0::nat) < ip_count (getIntensityParams High)" by (simp add: count)
  have i59: "(59::nat) < ip_count (getIntensityParams High)" by (simp add: count)
  have p0: "progress demo_flow ! 0 = 9 / 10"
    by (simp add: demo_flow_def init_particles_def Let_def count demo_random_def del: upt_Suc)
  have p59: "progress demo_flow ! 59 = 3 / 23"
    by (simp add: demo_flow_def init_particles_def Let_def count demo_random_def del: upt_Suc)
  have o0: "offsets demo_flow ! 0 = (- (13 / 70), - (53 / 284), - (3 / 16))"
    by (simp add: demo_flow_def init_particles_def Let_def count demo_random_def
        createRandomOffset_def del: upt_Suc)
  have d: "draws demo_flow = 244"
    by (simp add: demo_flow_def init_particles_def Let_def count)
  have fd: "frame_delta 2 demo_flow = 1"
    by (simp add: frame_delta_def demo_flow_def)
  have speed: "ip_speed (getIntensityParams High) = 7 / 10"
    by (simp add: getIntensityParams_def)
  have adv0: "advanced (\<lambda>x. x) High 2 demo_flow 0 = 16 / 10"
    by (simp add: advanced_def p0 fd speed)
  have adv59: "advanced (\<lambda>x. x) High 2 demo_flow 59 = 191 / 230"
    by (simp add: advanced_def p59 fd speed)
  have wb: "wraps_before (\<lambda>x. x) High 2 demo_flow 0 = 0"
    by (simp add: wraps_before_def)
  note c0 = particle_update [OF lp lo i0, of "\<lambda>x. x" demo_random "(8, 0, 0)" "(0, 8, 0)" 2]
  note c59 = particle_update [OF lp lo i59, of "\<lambda>x. x" demo_random "(8, 0, 0)" "(0, 8, 0)" 2]
  have a: "progress (useFrame (\<lambda>x. x) demo_random (8, 0, 0) (0, 8, 0) High True 2 demo_flow) ! 0 = 0"
    using c0 [THEN conjunct1] by (simp add: adv0)
  have b: "offsets (useFrame (\<lambda>x. x) demo_random (8, 0, 0) (0, 8, 0) High True 2 demo_flow) ! 0
             = (- (59 / 254), - (79 / 340), - (119 / 512))"
    using c0 [THEN conjunct2, THEN conjunct1]
    by (simp add: adv0 wb d demo_random_def)
  have e: "progress (useFrame (\<lambda>x. x) demo_random (8, 0, 0) (0, 8, 0) High True 2 demo_flow) ! 59 = 191 / 230"
    using c59 [THEN conjunct1] by (simp add: adv59)
  have f: "offsets (useFrame (\<lambda>x. x) demo_random (8, 0, 0) (0, 8, 0) High True 2 demo_flow) ! 59
             = offsets demo_flow ! 59"
    using c59 [THEN conjunct2, THEN conjunct1] by (simp add: adv59)
  from lp lo i0 i59 o0 a b e f show ?thesis by (intro conjI)
qed

section \<open>Properties of the camera controller\<close>

lemma Cubic_InOut_ends: "Cubic_InOut 0 = 0" "Cubic_InOut 1 = 1"
  by (simp_all add: Cubic_InOut_def)

lemma Cubic_InOut_continuous: "continuous_on UNIV Cubic_InOut"
proof -
  have eq: "Cubic_InOut = (\<lambda>a. if a * 2 < 1 then (1 / 2) * (a * 2) ^ 3 else (1 / 2) * ((a * 2 - 2) ^ 3 + 2))"
    by (rule ext) (simp add: Cubic_InOut_def)
  have "continuous_on ({..1 / 2} \<union> {1 / 2..})
          (\<lambda>a::real. if a * 2 < 1 then (1 / 2) * (a * 2) ^ 3 else (1 / 2) * ((a * 2 - 2) ^ 3 + 2))"
    by (rule continuous_on_If) (auto intro!: continuous_intros)
  moreover have "{..1 / 2} \<union> {1 / 2..} = (UNIV :: real set)" by auto
  ultimately have "continuous_on UNIV
          (\<lambda>a::real. if a * 2 < 1 then (1 / 2) * (a * 2) ^ 3 else (1 / 2) * ((a * 2 - 2) ^ 3 + 2))"
    by simp
  then show ?thesis unfolding eq .
qed

lemma tween_value_start:
  "tween_duration tw > 0 \<Longrightarrow> tween_easing tw 0 = 0 \<Longrightarrow> tween_value tw 0 = tween_from tw"
  by (cases "tween_from tw"; cases "tween_to tw") (simp add: tween_value_def)

lemma tween_value_end:
  "tween_duration tw > 0 \<Longrightarrow> tween_easing tw 1 = 1 \<Longrightarrow> tween_duration tw \<le> e \<Longrightarrow>
     tween_value tw e = tween_to tw"
  by (cases "tween_from tw"; cases "tween_to tw")
    (auto simp add: tween_value_def Let_def divide_le_eq not_less le_divide_eq)

lemma tween_value_between:
  "tween_duration tw > 0 \<Longrightarrow> e \<le> tween_duration tw \<Longrightarrow>
     tween_value tw e =
       addV (tween_from tw)
         (multiplyScalar (subV (tween_to tw) (tween_from tw)) (tween_easing tw (e / tween_duration tw)))"
  by (simp add: tween_value_def Let_def divide_le_eq not_less)

lemma CameraController_selected:
  "CameraController (Some targetVec) (Some tooltipVec) True rig =
     rig \<lparr> controls_target := (0, 0, 0),
           posTween := Some \<lparr> tween_from = camera_position rig,
                              tween_to = cameraDestination targetVec tooltipVec,
                              tween_duration = 1500,
                              tween_easing = Cubic_InOut,
                              tween_isPlaying = True \<rparr> \<rparr>"
  by (simp add: CameraController_def Let_def Tween_def Tween_to_def Tween_easing_def Tween_start_def)

lemma cameraDestination_eq:
  "cameraDestination targetVec tooltipVec =
      addV (multiplyScalar (normalizeV (multiplyScalar (addV targetVec tooltipVec) (1 / 2))) (- 25))
        (0, 10, 0)"
  by (cases "multiplyScalar (normalizeV (multiplyScalar (addV targetVec tooltipVec) (1 / 2))) (- 25)")
    (simp add: cameraDestination_def Let_def)

text \<open>
  What the camera controller does once a target position and a tooltip position are
  selected. It takes their midpoint, normalises it to a direction from the centre of the
  sphere and places the destination back along that direction at distance 25 (the
  direction times \<open>-25\<close>), 10 higher in \<open>y\<close>. It starts a tween of 1500 ms, with the easing
  set to cubic in-out, from the camera's current position to that destination and sets
  the orbit target to the centre. The camera does not jump: the effect leaves its position
  where it was, and the update \<open>e\<close> milliseconds later puts the camera at
  \<open>from + (to - from) * ease (e / 1500)\<close>, which is the old position at \<open>e = 0\<close>, moves
  along a continuous easing curve and is the destination from 1500 ms on; the orbit target
  stays at the centre through every update. With either position missing the controller
  does nothing. The click handler of a node selects the node's position and its anchor
  1.5 radii out; the click handler of a link selects the closest curve sample to the
  midpoint and the midpoint's anchor.
\<close>

lemma camera_transition:
  "controls_target (CameraController (Some targetVec) (Some tooltipVec) True rig) = (0, 0, 0)
   \<and> camera_position (CameraController (Some targetVec) (Some tooltipVec) True rig) = camera_position rig
   \<and> (\<exists>tw. posTween (CameraController (Some targetVec) (Some tooltipVec) True rig) = Some tw
         \<and> tween_from tw = camera_position rig
         \<and> tween_duration tw = 1500
         \<and> tween_easing tw = Cubic_InOut
         \<and> tween_isPlaying tw
         \<and> tween_to tw =
             addV (multiplyScalar (normalizeV (multiplyScalar (addV targetVec tooltipVec) (1 / 2))) (- 25))
               (0, 10, 0)
         \<and> (\<forall>e. 0 \<le> e \<longrightarrow>
               camera_position (TWEEN_update e (CameraController (Some targetVec) (Some tooltipVec) True rig))
                 = tween_value tw e)
         \<and> tween_value tw 0 = camera_position rig
         \<and> (\<forall>e. e \<le> 1500 \<longrightarrow>
               tween_value tw e =
                 addV (camera_position rig)
                   (multiplyScalar (subV (tween_to tw) (camera_position rig)) (Cubic_InOut (e / 1500))))
         \<and> (\<forall>e. 1500 \<le> e \<longrightarrow> tween_value tw e = tween_to tw))
   \<and> camera_position (TWEEN_update 0 (CameraController (Some targetVec) (Some tooltipVec) True rig))
       = camera_position rig
   \<and> (\<forall>e. 1500 \<le> e \<longrightarrow>
         camera_position (TWEEN_update e (CameraController (Some targetVec) (Some tooltipVec) True rig)) =
           addV (multiplyScalar (normalizeV (multiplyScalar (addV targetVec tooltipVec) (1 / 2))) (- 25))
             (0, 10, 0))
   \<and> continuous_on UNIV Cubic_InOut \<and> Cubic_InOut 0 = 0 \<and> Cubic_InOut 1 = 1
   \<and> (\<forall>e. controls_target (TWEEN_update e (CameraController (Some targetVec) (Some tooltipVec) True rig)) = (0, 0, 0))
   \<and> (\<forall>nodes nodeId n sel. find (\<lambda>n. node_id n = nodeId) nodes = Some n \<longrightarrow>
         selectedTarget (handleNodeClick nodes nodeId sel) = Some (node_position n)
       \<and> selectedTooltip (handleNodeClick nodes nodeId sel) =
           Some (ensureOutsideSphere (node_position n) (lengthV (node_position n)) (3 / 2)))
   \<and> (\<forall>nodes sourceId targetId s t sel.
         find (\<lambda>n. node_id n = sourceId) nodes = Some s \<longrightarrow>
         find (\<lambda>n. node_id n = targetId) nodes = Some t \<longrightarrow>
         selectedTarget (handleLinkClick nodes sourceId targetId sel) =
           Some (findClosestPointOnGreatCircle (node_position s) (node_position t)
                   (midpoint (node_position s) (node_position t)) (lengthV (node_position s)))
       \<and> selectedTooltip (handleLinkClick nodes sourceId targetId sel) =
           Some (ensureOutsideSphere (midpoint (node_position s) (node_position t))
                   (lengthV (node_position s)) (3 / 2)))
   \<and> CameraController None (Some tooltipVec) True rig = rig
   \<and> CameraController (Some targetVec) None True rig = rig"
proof -
  let ?rig' = "CameraController (Some targetVec) (Some tooltipVec) True rig"
  let ?tw = "\<lparr> tween_from = camera_position rig,
                tween_to = cameraDestination targetVec tooltipVec,
                tween_duration = 1500,
                tween_easing = Cubic_InOut,
                tween_isPlaying = True \<rparr>"
  let ?dest = "addV (multiplyScalar (normalizeV (multiplyScalar (addV targetVec tooltipVec) (1 / 2))) (- 25))
        (0, 10, 0)"
  have rig': "?rig' = rig \<lparr> controls_target := (0, 0, 0), posTween := Some ?tw \<rparr>"
    by (rule CameraController_selected)
  have dest: "cameraDestination targetVec tooltipVec = ?dest"
    by (rule cameraDestination_eq)
  have dur: "tween_duration ?tw > 0" by simp
  have e0: "tween_easing ?tw 0 = 0" and e1: "tween_easing ?tw 1 = 1"
    by (simp_all add: Cubic_InOut_ends)
  have a: "controls_target ?rig' = (0, 0, 0)" by (simp add: rig')
  have b: "camera_position ?rig' = camera_position rig" by (simp add: rig')
  have upd: "camera_position (TWEEN_update e ?rig') = tween_value ?tw e" if "0 \<le> e" for e
    using that by (simp add: rig' TWEEN_update_def)
  have start: "tween_value ?tw 0 = camera_position rig"
    using tween_value_start [OF dur e0] by simp
  have finish: "tween_value ?tw e = ?dest" if "1500 \<le> e" for e
    using tween_value_end [OF dur e1, of e] that by (simp add: dest)
  have c: "\<exists>tw. posTween ?rig' = Some tw
         \<and> tween_from tw = camera_position rig
         \<and> tween_duration tw = 1500
         \<and> tween_easing tw = Cubic_InOut
         \<and> tween_isPlaying tw
         \<and> tween_to tw = ?dest
         \<and> (\<forall>e. 0 \<le> e \<longrightarrow> camera_position (TWEEN_update e ?rig') = tween_value tw e)
         \<and> tween_value tw 0 = camera_position rig
         \<and> (\<forall>e. e \<le> 1500 \<longrightarrow>
               tween_value tw e =
                 addV (camera_position rig)
                   (multiplyScalar (subV (tween_to tw) (camera_position rig)) (Cubic_InOut (e / 1500))))
         \<and> (\<forall>e. 1500 \<le> e \<longrightarrow> tween_value tw e = tween_to tw)"
  proof (intro exI [of _ ?tw] conjI allI impI)
    show "posTween ?rig' = Some ?tw" by (simp add: rig')
    show "tween_from ?tw = camera_position rig" by simp
    show "tween_duration ?tw = 1500" by simp
    show "tween_easing ?tw = Cubic_InOut" by simp
    show "tween_isPlaying ?tw" by simp
    show "tween_to ?tw = ?dest" by (simp add: dest)
    show "camera_position (TWEEN_update e ?rig') = tween_value ?tw e" if "0 \<le> e" for e
      using that by (rule upd)
    show "tween_value ?tw 0 = camera_position rig" by (rule start)
    show "tween_value ?tw e =
                 addV (camera_position rig)
                   (multiplyScalar (subV (tween_to ?tw) (camera_position rig)) (Cubic_InOut (e / 1500)))"
      if "e \<le> 1500" for e
      using tween_value_between [OF dur, of e] that by simp
    show "tween_value ?tw e = tween_to ?tw" if "1500 \<le> e" for e
      using finish [OF that] by (simp add: dest)
  qed
  have c0: "camera_position (TWEEN_update 0 ?rig') = camera_position rig"
    using upd [of 0] start by simp
  have c1: "camera_position (TWEEN_update e ?rig') = ?dest" if "1500 \<le> e" for e
  proof -
    from that have "0 \<le> e" by simp
    then show ?thesis using upd [of e] finish [OF that] by simp
  qed
  have d: "controls_target (TWEEN_update e ?rig') = (0, 0, 0)" for e
    by (simp add: rig' TWEEN_update_def)
  have e: "selectedTarget (handleNodeClick nodes nodeId sel) = Some (node_position n)
       \<and> selectedTooltip (handleNodeClick nodes nodeId sel) =
           Some (ensureOutsideSphere (node_position n) (lengthV (node_position n)) (3 / 2))"
    if "find (\<lambda>n. node_id n = nodeId) nodes = Some n" for nodes nodeId n sel
    using that by (cases "node_position n") (simp add: handleNodeClick_def Let_def default_offset_def)
  have f: "selectedTarget (handleLinkClick nodes sourceId targetId sel) =
           Some (findClosestPointOnGreatCircle (node_position s) (node_position t)
                   (midpoint (node_position s) (node_position t)) (lengthV (node_position s)))
       \<and> selectedTooltip (handleLinkClick nodes sourceId targetId sel) =
           Some (ensureOutsideSphere (midpoint (node_position s) (node_position t))
                   (lengthV (node_position s)) (3 / 2))"
    if "find (\<lambda>n. node_id n = sourceId) nodes = Some s" "find (\<lambda>n. node_id n = targetId) nodes = Some t"
    for nodes sourceId targetId s t sel
    using that by (simp add: handleLinkClick_def Let_def default_offset_def)
  have g: "CameraController None (Some tooltipVec) True rig = rig"
    "CameraController (Some targetVec) None True rig = rig"
    by (simp_all add: CameraController_def)
  note h = Cubic_InOut_continuous Cubic_InOut_ends
  have k: "\<forall>e. 1500 \<le> e \<longrightarrow> camera_position (TWEEN_update e ?rig') = ?dest"
    using c1 by simp
  have l: "\<forall>e. controls_target (TWEEN_update e ?rig') = (0, 0, 0)"
    using d by simp
  have m: "\<forall>nodes nodeId n sel. find (\<lambda>n. node_id n = nodeId) nodes = Some n \<longrightarrow>
         selectedTarget (handleNodeClick nodes nodeId sel) = Some (node_position n)
       \<and> selectedTooltip (handleNodeClick nodes nodeId sel) =
           Some (ensureOutsideSphere (node_position n) (lengthV (node_position n)) (3 / 2))"
    using e by blast
  have n: "\<forall>nodes sourceId targetId s t sel.
         find (\<lambda>n. node_id n = sourceId) nodes = Some s \<longrightarrow>
         find (\<lambda>n. node_id n = targetId) nodes = Some t \<longrightarrow>
         selectedTarget (handleLinkClick nodes sourceId targetId sel) =
           Some (findClosestPointOnGreatCircle (node_position s) (node_position t)
                   (midpoint (node_position s) (node_position t)) (lengthV (node_position s)))
       \<and> selectedTooltip (handleLinkClick nodes sourceId targetId sel) =
           Some (ensureOutsideSphere (midpoint (node_position s) (node_position t))
                   (lengthV (node_position s)) (3 / 2))"
    using f by blast
  from a b c c0 k h l m n g show ?thesis by (intro conjI)
qed

lemma lengthV_x_axis: "lengthV (a, 0, 0) = \<bar>a\<bar>"
  by simp

lemma normalizeV_x_axis: "0 < a \<Longrightarrow> normalizeV (a, 0, 0) = (1, 0, 0)"
  by (simp add: normalizeV_def divideScalar_def lengthV_x_axis del: lengthV.simps)

text \<open>
  A pointer-down on node A at \<open>(8, 0, 0)\<close> in the starting state, the camera at
  \<open>(0, 15, 25)\<close>: the node's click handler selects the node and its anchor \<open>(12, 0, 0)\<close>,
  the view direction is the \<open>x\<close> axis and the camera travels to \<open>(-25, 10, 0)\<close>.
\<close>

lemma node_click_selection:
  "selectedTarget (scene_pointer [nodeA, nodeB] (NodeObject ''A'') PointerDown initial_selection)
     = Some (8, 0, 0)"
  "selectedTooltip (scene_pointer [nodeA, nodeB] (NodeObject ''A'') PointerDown initial_selection)
     = Some (12, 0, 0)"
proof -
  have found: "find (\<lambda>n. node_id n = ''A'') [nodeA, nodeB] = Some nodeA"
    by (simp add: nodeA_def)
  have anchor: "ensureOutsideSphere (8, 0, 0) 8 default_offset = (12, 0, 0)"
    by (simp add: ensureOutsideSphere_def default_offset_def normalizeV_x_axis del: lengthV.simps)
  have click: "handleNodeClick [nodeA, nodeB] ''A'' initial_selection =
      initial_selection \<lparr> selectedTarget := Some (8, 0, 0), selectedTooltip := Some (12, 0, 0),
        hoveredNode := Some ''A'', hoveredLink := None, autoTooltip := False \<rparr>"
    unfolding handleNodeClick_def found
    by (simp add: nodeA_def Let_def anchor)
  show "selectedTarget (scene_pointer [nodeA, nodeB] (NodeObject ''A'') PointerDown initial_selection)
     = Some (8, 0, 0)"
    "selectedTooltip (scene_pointer [nodeA, nodeB] (NodeObject ''A'') PointerDown initial_selection)
     = Some (12, 0, 0)"
    by (simp_all add: scene_pointer_def NetworkNode_pointer_def click)
qed

lemma node_click_transition:
  "camera_position (TWEEN_update 0
       (camera_effect (scene_pointer [nodeA, nodeB] (NodeObject ''A'') PointerDown initial_selection)
          initial_rig)) = (0, 15, 25)"
  "camera_position (TWEEN_update 1500
       (camera_effect (scene_pointer [nodeA, nodeB] (NodeObject ''A'') PointerDown initial_selection)
          initial_rig)) = (- 25, 10, 0)"
proof -
  note c = camera_transition [of "(8, 0, 0)" "(12, 0, 0)" initial_rig]
  have eff: "camera_effect (scene_pointer [nodeA, nodeB] (NodeObject ''A'') PointerDown initial_selection)
          initial_rig = CameraController (Some (8, 0, 0)) (Some (12, 0, 0)) True initial_rig"
    by (simp add: camera_effect_def node_click_selection)
  have "camera_position (TWEEN_update 0 (CameraController (Some (8, 0, 0)) (Some (12, 0, 0)) True initial_rig))
      = camera_position initial_rig"
    by (rule c [THEN conjunct2, THEN conjunct2, THEN conjunct2, THEN conjunct1])
  then show "camera_position (TWEEN_update 0
       (camera_effect (scene_pointer [nodeA, nodeB] (NodeObject ''A'') PointerDown initial_selection)
          initial_rig)) = (0, 15, 25)"
    unfolding eff by (simp add: initial_rig_def)
  have "camera_position (TWEEN_update 1500 (CameraController (Some (8, 0, 0)) (Some (12, 0, 0)) True initial_rig))
      = addV (multiplyScalar (normalizeV (multiplyScalar (addV (8, 0, 0) (12, 0, 0)) (1 / 2))) (- 25))
             (0, 10, 0)"
    using c [THEN conjunct2, THEN conjunct2, THEN conjunct2, THEN conjunct2, THEN conjunct1] by simp
  then show "camera_position (TWEEN_update 1500
       (camera_effect (scene_pointer [nodeA, nodeB] (NodeObject ''A'') PointerDown initial_selection)
          initial_rig)) = (- 25, 10, 0)"
    unfolding eff by (simp add: normalizeV_x_axis)
qed

lemma link_click_handler_selects:
  "selectedTarget (handleLinkClick [nodeA, nodeB] ''A'' ''B'' initial_selection) \<noteq> None"
  "selectedTooltip (handleLinkClick [nodeA, nodeB] ''A'' ''B'' initial_selection) \<noteq> None"
proof -
  have found: "find (\<lambda>n. node_id n = ''A'') [nodeA, nodeB] = Some nodeA"
    "find (\<lambda>n. node_id n = ''B'') [nodeA, nodeB] = Some nodeB"
    by (simp_all add: nodeA_def nodeB_def)
  show "selectedTarget (handleLinkClick [nodeA, nodeB] ''A'' ''B'' initial_selection) \<noteq> None"
    "selectedTooltip (handleLinkClick [nodeA, nodeB] ''A'' ''B'' initial_selection) \<noteq> None"
    unfolding handleLinkClick_def found by (simp_all add: Let_def)
qed

text \<open>
  C9. The claim has a click on a link start the camera transition as a click on a node
  does. In the code it does not. A pointer-down on a rendered link leaves the whole
  selection as it was, in every state: the link component attaches no handler for it.
  In the starting state, for the link from A to B, nothing is selected afterwards, the
  camera controller returns the rig as it was, no tween is started and the camera still
  stands at \<open>(0, 15, 25)\<close> 1500 ms later. The handler the link was given,
  \<open>handleLinkClick\<close>, would have selected a target and an anchor had it been called. The
  same pointer-down on node A does start the transition: the camera is at its old place
  at 0 ms and at \<open>(-25, 10, 0)\<close>, back along the view direction at distance 25 and 10
  higher, at 1500 ms.
\<close>

theorem link_click_starts_no_transition:
  "scene_pointer nodes (LinkObject sourceId targetId) PointerDown sel = sel
   \<and> selectedTarget (scene_pointer [nodeA, nodeB] (LinkObject ''A'' ''B'') PointerDown initial_selection) = None
   \<and> selectedTooltip (scene_pointer [nodeA, nodeB] (LinkObject ''A'' ''B'') PointerDown initial_selection) = None
   \<and> camera_effect (scene_pointer [nodeA, nodeB] (LinkObject ''A'' ''B'') PointerDown initial_selection)
        initial_rig = initial_rig
   \<and> posTween (camera_effect (scene_pointer [nodeA, nodeB] (LinkObject ''A'' ''B'') PointerDown initial_selection)
        initial_rig) = None
   \<and> camera_position (TWEEN_update 1500
        (camera_effect (scene_pointer [nodeA, nodeB] (LinkObject ''A'' ''B'') PointerDown initial_selection)
           initial_rig)) = (0, 15, 25)
   \<and> selectedTarget (handleLinkClick [nodeA, nodeB] ''A'' ''B'' initial_selection) \<noteq> None
   \<and> selectedTooltip (handleLinkClick [nodeA, nodeB] ''A'' ''B'' initial_selection) \<noteq> None
   \<and> camera_position (TWEEN_update 0
        (camera_effect (scene_pointer [nodeA, nodeB] (NodeObject ''A'') PointerDown initial_selection)
           initial_rig)) = (0, 15, 25)
   \<and> camera_position (TWEEN_update 1500
        (camera_effect (scene_pointer [nodeA, nodeB] (NodeObject ''A'') PointerDown initial_selection)
           initial_rig)) = (- 25, 10, 0)"
proof -
  have same: "scene_pointer ns (LinkObject s t) PointerDown x = x" for ns s t x
    by (simp add: scene_pointer_def NetworkLink_pointer_def)
  have none: "selectedTarget initial_selection = None" "selectedTooltip initial_selection = None"
    by (simp_all add: initial_selection_def)
  have eff: "camera_effect initial_selection initial_rig = initial_rig"
    by (simp add: camera_effect_def CameraController_def none)
  have tw: "posTween initial_rig = None" "camera_position initial_rig = (0, 15, 25)"
    by (simp_all add: initial_rig_def)
  have still: "TWEEN_update 1500 initial_rig = initial_rig"
    by (simp add: TWEEN_update_def tw)
  show ?thesis
    by (simp only: same none eff tw still node_click_transition simp_thms)
      (simp add: link_click_handler_selects)
qed

section \<open>Properties of the great-circle geometry\<close>

lemma lengthV_zero_iff: "lengthV v = 0 \<longleftrightarrow> v = (0, 0, 0)"
proof (cases v)
  case (fields x y z)
  have "x * x + y * y + z * z = 0 \<longleftrightarrow> x = 0 \<and> y = 0 \<and> z = 0"
    using sum_squares_eq_zero_iff [of x y] sum_squares_eq_zero_iff [of "sqrt (x * x + y * y)" z]
    by (smt (verit) mult_eq_0_iff not_sum_squares_lt_zero sum_squares_eq_zero_iff zero_le_square)
  then show ?thesis by (simp add: fields)
qed

lemma lengthV_nonneg: "0 \<le> lengthV v"
  by (cases v) simp

lemma lengthV_multiplyScalar: "lengthV (multiplyScalar v s) = lengthV v * \<bar>s\<bar>"
proof (cases v)
  case (fields x y z)
  have "x * s * (x * s) + y * s * (y * s) + z * s * (z * s) = (x * x + y * y + z * z) * (s * s)"
    by (simp add: algebra_simps)
  then show ?thesis by (simp add: fields real_sqrt_mult)
qed

lemma lengthV_normalizeV: "v \<noteq> (0, 0, 0) \<Longrightarrow> lengthV (normalizeV v) = 1"
proof -
  assume "v \<noteq> (0, 0, 0)"
  then have nz: "lengthV v \<noteq> 0" by (simp add: lengthV_zero_iff)
  then have pos: "0 < lengthV v" using lengthV_nonneg [of v] by linarith
  show ?thesis
    using nz pos by (simp add: normalizeV_def divideScalar_def lengthV_multiplyScalar)
qed

lemma normalizeV_zero: "normalizeV (0, 0, 0) = (0, 0, 0)"
  by (simp add: normalizeV_def divideScalar_def)

lemma normalizeV_scaled_back:
  "lengthV v = R \<Longrightarrow> 0 < R \<Longrightarrow> multiplyScalar (normalizeV v) R = v"
  by (cases v) (simp add: normalizeV_def divideScalar_def del: lengthV.simps)

lemma lengthV_sq: "lengthV (x, y, z) = 1 \<longleftrightarrow> x * x + y * y + z * z = 1"
  by simp

text \<open>Unit quaternions: \<open>dotQ q q = 1\<close>.\<close>

lemma normalizeQ_unit: "dotQ (normalizeQ q) (normalizeQ q) = 1"
proof (cases "lengthQ q = 0")
  case True
  then show ?thesis by (simp add: normalizeQ_def dotQ_def)
next
  case False
  let ?n = "qx q * qx q + qy q * qy q + qz q * qz q + qw q * qw q"
  have nn: "0 \<le> ?n" by simp
  have l2: "lengthQ q * lengthQ q = ?n"
    unfolding lengthQ_def using nn by (metis real_sqrt_mult_self abs_of_nonneg)
  have "dotQ (normalizeQ q) (normalizeQ q) = ?n / (lengthQ q * lengthQ q)"
    using False by (simp add: normalizeQ_def dotQ_def Let_def field_simps)
  also have "\<dots> = 1" using False by (simp only: l2 [symmetric]) simp
  finally show ?thesis .
qed

lemma setFromUnitVectors_unit:
  "dotQ (setFromUnitVectors f t) (setFromUnitVectors f t) = 1"
  by (cases f; cases t) (simp add: Let_def normalizeQ_unit)

lemma applyQuaternion_up:
  "applyQuaternion (0, 1, 0) q =
     (2 * (qx q * qy q - qw q * qz q),
      1 - 2 * (qx q * qx q + qz q * qz q),
      2 * (qw q * qx q + qy q * qz q))"
  by (simp add: Let_def algebra_simps)

lemma applyQuaternion_up_unit:
  assumes "dotQ q q = 1"
  shows "lengthV (applyQuaternion (0, 1, 0) q) = 1"
proof -
  let ?x = "qx q" and ?y = "qy q" and ?z = "qz q" and ?w = "qw q"
  let ?s = "?x * ?x + ?z * ?z"
  have u: "?x * ?x + ?y * ?y + ?z * ?z + ?w * ?w = 1" using assms by (simp add: dotQ_def)
  have "(2 * (?x * ?y - ?w * ?z)) * (2 * (?x * ?y - ?w * ?z))
        + (1 - 2 * ?s) * (1 - 2 * ?s)
        + (2 * (?w * ?x + ?y * ?z)) * (2 * (?w * ?x + ?y * ?z))
        = 4 * ?s * (?x * ?x + ?y * ?y + ?z * ?z + ?w * ?w - 1) + 1"
    by (simp add: algebra_simps)
  also have "\<dots> = 1" by (simp only: u) simp
  finally show ?thesis
    by (simp only: applyQuaternion_up lengthV.simps) simp
qed

text \<open>
  The rotation built for a unit direction carries the reference vector onto it, the
  opposite pole included.
\<close>

lemma setFromUnitVectors_up:
  assumes unit: "a * a + b * b + c * c = 1"
  shows "applyQuaternion (0, 1, 0) (setFromUnitVectors (0, 1, 0) (a, b, c)) = (a, b, c)"
proof (cases "b + 1 \<le> 0")
  case True
  have "b * b \<le> 1" using unit by (smt (verit) zero_le_square)
  then have "- 1 \<le> b" by (smt (verit) mult_le_cancel_left2 mult_minus_right zero_le_square)
  with True have b: "b = - 1" by simp
  with unit have "a * a + c * c = 0" by simp
  then have ac: "a = 0" "c = 0" by (simp_all add: sum_squares_eq_zero_iff)
  have "normalizeQ (Quaternion 0 0 1 0) = Quaternion 0 0 1 0"
    by (simp add: normalizeQ_def lengthQ_def)
  then have "setFromUnitVectors (0, 1, 0) (a, b, c) = Quaternion 0 0 1 0"
    using b ac by simp
  then show ?thesis using b ac by (simp add: applyQuaternion_up)
next
  case False
  then have r: "0 < b + 1" by simp
  let ?q = "Quaternion c 0 (- a) (b + 1)"
  have n: "c * c + a * a + (b + 1) * (b + 1) = 2 * (b + 1)"
    using unit by (simp add: algebra_simps)
  have l: "lengthQ ?q = sqrt (2 * (b + 1))"
    by (simp add: lengthQ_def n)
  define k where "k = 1 / sqrt (2 * (b + 1))"
  have lpos: "0 < sqrt (2 * (b + 1))" using r by simp
  have kk: "k * k * (2 * (b + 1)) = 1"
    using r lpos by (simp add: k_def field_simps)
  have q: "setFromUnitVectors (0, 1, 0) (a, b, c) = Quaternion (c * k) 0 (- a * k) ((b + 1) * k)"
    using False lpos by (simp add: Let_def normalizeQ_def l k_def)
  have x: "2 * (c * k * 0 - (b + 1) * k * (- a * k)) = a"
  proof -
    have "2 * (c * k * 0 - (b + 1) * k * (- a * k)) = a * (k * k * (2 * (b + 1)))"
      by (simp add: algebra_simps)
    also have "\<dots> = a * 1" by (simp only: kk)
    finally show ?thesis by simp
  qed
  have z: "2 * ((b + 1) * k * (c * k) + 0 * (- a * k)) = c"
  proof -
    have "2 * ((b + 1) * k * (c * k) + 0 * (- a * k)) = c * (k * k * (2 * (b + 1)))"
      by (simp add: algebra_simps)
    also have "\<dots> = c * 1" by (simp only: kk)
    finally show ?thesis by simp
  qed
  have y: "1 - 2 * (c * k * (c * k) + - a * k * (- a * k)) = b"
  proof -
    have ac: "a * a + c * c = (1 - b) * (b + 1)" using unit by (simp add: algebra_simps)
    have "1 - 2 * (c * k * (c * k) + - a * k * (- a * k)) = 1 - 2 * (k * k) * (a * a + c * c)"
      by (simp add: algebra_simps)
    also have "\<dots> = 1 - (1 - b) * (k * k * (2 * (b + 1)))"
      by (simp only: ac) (simp add: algebra_simps)
    also have "\<dots> = 1 - (1 - b) * 1" by (simp only: kk)
    finally show ?thesis by simp
  qed
  show ?thesis
    by (simp only: q applyQuaternion_up quaternion.sel x y z)
qed

lemma quat_of_direction:
  assumes "v \<noteq> (0, 0, 0)"
  shows "applyQuaternion (0, 1, 0) (setFromUnitVectors (0, 1, 0) (normalizeV v)) = normalizeV v"
proof -
  obtain a b c where n: "normalizeV v = (a, b, c)" by (cases "normalizeV v") auto
  have "lengthV (normalizeV v) = 1" using assms by (rule lengthV_normalizeV)
  then have "a * a + b * b + c * c = 1" by (simp add: n)
  then show ?thesis unfolding n by (rule setFromUnitVectors_up)
qed

lemma slerp_ends: "slerp qa qb 0 = qa" "slerp qa qb 1 = qb"
  by (simp_all add: slerp_def)

lemma getGreatCirclePoint_ends:
  assumes "start \<noteq> (0, 0, 0)" "endv \<noteq> (0, 0, 0)"
  shows "getGreatCirclePoint start endv 0 R = multiplyScalar (normalizeV start) R"
    and "getGreatCirclePoint start endv 1 R = multiplyScalar (normalizeV endv) R"
proof -
  have s: "applyQuaternion (0, 1, 0) (setFromUnitVectors (0, 1, 0) (normalizeV start)) = normalizeV start"
    using assms(1) by (rule quat_of_direction)
  have e: "applyQuaternion (0, 1, 0) (setFromUnitVectors (0, 1, 0) (normalizeV endv)) = normalizeV endv"
    using assms(2) by (rule quat_of_direction)
  show "getGreatCirclePoint start endv 0 R = multiplyScalar (normalizeV start) R"
    by (simp only: getGreatCirclePoint_def Let_def slerpQuaternions_def slerp_ends s)
  show "getGreatCirclePoint start endv 1 R = multiplyScalar (normalizeV endv) R"
    by (simp only: getGreatCirclePoint_def Let_def slerpQuaternions_def slerp_ends e)
qed

text \<open>Slerp of unit quaternions is a unit quaternion.\<close>

lemma sum_identity_algebra:
  fixes su cu sv cv :: real
  shows "(su * cv + cu * sv)\<^sup>2 - (su\<^sup>2 + sv\<^sup>2 + 2 * su * sv * (cu * cv - su * sv)) =
           su\<^sup>2 * (cv\<^sup>2 + sv\<^sup>2 - 1) + sv\<^sup>2 * (cu\<^sup>2 + su\<^sup>2 - 1)"
  by (simp add: power2_eq_square algebra_simps)

lemma sin_sum_identity:
  fixes u v :: real
  shows "(sin u)\<^sup>2 + (sin v)\<^sup>2 + 2 * sin u * sin v * cos (u + v) = (sin (u + v))\<^sup>2"
proof -
  have "(sin (u + v))\<^sup>2 - ((sin u)\<^sup>2 + (sin v)\<^sup>2 + 2 * sin u * sin v * cos (u + v)) =
          (sin u)\<^sup>2 * ((cos v)\<^sup>2 + (sin v)\<^sup>2 - 1) + (sin v)\<^sup>2 * ((cos u)\<^sup>2 + (sin u)\<^sup>2 - 1)"
    unfolding sin_add cos_add by (rule sum_identity_algebra)
  also have "\<dots> = 0" by simp
  finally show ?thesis by simp
qed

lemma combination_unit:
  assumes "dotQ p p = 1" "dotQ q q = 1" "A * A + B * B + 2 * A * B * dotQ p q = 1"
  shows "dotQ (Quaternion (qx p * A + qx q * B) (qy p * A + qy q * B)
                          (qz p * A + qz q * B) (qw p * A + qw q * B))
              (Quaternion (qx p * A + qx q * B) (qy p * A + qy q * B)
                          (qz p * A + qz q * B) (qw p * A + qw q * B)) = 1"
proof -
  have "dotQ (Quaternion (qx p * A + qx q * B) (qy p * A + qy q * B)
                          (qz p * A + qz q * B) (qw p * A + qw q * B))
              (Quaternion (qx p * A + qx q * B) (qy p * A + qy q * B)
                          (qz p * A + qz q * B) (qw p * A + qw q * B))
        = A * A * dotQ p p + B * B * dotQ q q + 2 * A * B * dotQ p q"
    by (simp add: dotQ_def algebra_simps)
  also have "\<dots> = 1" using assms by simp
  finally show ?thesis .
qed

lemma slerp_weights:
  assumes "0 \<le> c" "c < 1"
  shows "(sin ((1 - t) * arccos c) / sqrt (1 - c * c)) * (sin ((1 - t) * arccos c) / sqrt (1 - c * c))
       + (sin (t * arccos c) / sqrt (1 - c * c)) * (sin (t * arccos c) / sqrt (1 - c * c))
       + 2 * (sin ((1 - t) * arccos c) / sqrt (1 - c * c)) * (sin (t * arccos c) / sqrt (1 - c * c)) * c = 1"
proof -
  let ?th = "arccos c"
  let ?u = "(1 - t) * ?th" and ?v = "t * ?th"
  have cc: "c * c < 1" using assms by (smt (verit) mult_le_one mult_left_le)
  then have pos: "0 < 1 - c * c" by simp
  have sq: "sqrt (1 - c * c) * sqrt (1 - c * c) = 1 - c * c" using pos by simp
  have sum: "?u + ?v = ?th" by (simp add: algebra_simps)
  have cos: "cos ?th = c" using assms by simp
  have sin: "(sin ?th)\<^sup>2 = 1 - c * c"
    using assms pos by (simp add: sin_arccos power2_eq_square)
  have id: "(sin ?u)\<^sup>2 + (sin ?v)\<^sup>2 + 2 * sin ?u * sin ?v * c = 1 - c * c"
    using sin_sum_identity [of ?u ?v] by (simp only: sum cos sin)
  have "(sin ?u / sqrt (1 - c * c)) * (sin ?u / sqrt (1 - c * c))
       + (sin ?v / sqrt (1 - c * c)) * (sin ?v / sqrt (1 - c * c))
       + 2 * (sin ?u / sqrt (1 - c * c)) * (sin ?v / sqrt (1 - c * c)) * c
       = ((sin ?u)\<^sup>2 + (sin ?v)\<^sup>2 + 2 * sin ?u * sin ?v * c) / (sqrt (1 - c * c) * sqrt (1 - c * c))"
    by (simp add: power2_eq_square add_divide_distrib)
  also have "\<dots> = 1" using pos by (simp only: id sq) simp
  finally show ?thesis .
qed

lemma slerp_generic:
  assumes "t \<noteq> 0" "t \<noteq> 1" "\<bar>dotQ qa qb\<bar> < 1"
  shows "slerp qa qb t =
           Quaternion
             (qx qa * (sin ((1 - t) * arccos \<bar>dotQ qa qb\<bar>) / sqrt (1 - \<bar>dotQ qa qb\<bar> * \<bar>dotQ qa qb\<bar>))
              + (if dotQ qa qb < 0 then - 1 else 1) * qx qb
                * (sin (t * arccos \<bar>dotQ qa qb\<bar>) / sqrt (1 - \<bar>dotQ qa qb\<bar> * \<bar>dotQ qa qb\<bar>)))
             (qy qa * (sin ((1 - t) * arccos \<bar>dotQ qa qb\<bar>) / sqrt (1 - \<bar>dotQ qa qb\<bar> * \<bar>dotQ qa qb\<bar>))
              + (if dotQ qa qb < 0 then - 1 else 1) * qy qb
                * (sin (t * arccos \<bar>dotQ qa qb\<bar>) / sqrt (1 - \<bar>dotQ qa qb\<bar> * \<bar>dotQ qa qb\<bar>)))
             (qz qa * (sin ((1 - t) * arccos \<bar>dotQ qa qb\<bar>) / sqrt (1 - \<bar>dotQ qa qb\<bar> * \<bar>dotQ qa qb\<bar>))
              + (if dotQ qa qb < 0 then - 1 else 1) * qz qb
                * (sin (t * arccos \<bar>dotQ qa qb\<bar>) / sqrt (1 - \<bar>dotQ qa qb\<bar> * \<bar>dotQ qa qb\<bar>)))
             (qw qa * (sin ((1 - t) * arccos \<bar>dotQ qa qb\<bar>) / sqrt (1 - \<bar>dotQ qa qb\<bar> * \<bar>dotQ qa qb\<bar>))
              + (if dotQ qa qb < 0 then - 1 else 1) * qw qb
                * (sin (t * arccos \<bar>dotQ qa qb\<bar>) / sqrt (1 - \<bar>dotQ qa qb\<bar> * \<bar>dotQ qa qb\<bar>)))"
proof -
  let ?d = "dotQ qa qb"
  have c: "(if ?d < 0 then - ?d else ?d) = \<bar>?d\<bar>" by simp
  have lt: "\<not> 1 \<le> \<bar>?d\<bar>" using assms(3) by simp
  have "\<bar>?d\<bar> * \<bar>?d\<bar> < 1" using assms(3) by (smt (verit) abs_ge_zero mult_le_one mult_left_le)
  then have pos: "\<not> 1 - \<bar>?d\<bar> * \<bar>?d\<bar> \<le> 0" by simp
  show ?thesis
  proof (cases "?d < 0")
    case True
    then have a: "\<bar>?d\<bar> = - ?d" by simp
    show ?thesis
      unfolding slerp_def Let_def c
      using assms(1,2) lt pos True by (simp add: a)
  next
    case False
    then have a: "\<bar>?d\<bar> = ?d" by simp
    show ?thesis
      unfolding slerp_def Let_def c
      using assms(1,2) lt pos False by (simp add: a)
  qed
qed

lemma slerp_parallel:
  assumes "t \<noteq> 0" "t \<noteq> 1" "1 \<le> \<bar>dotQ qa qb\<bar>"
  shows "slerp qa qb t = qa"
proof (cases "dotQ qa qb < 0")
  case True
  then have "1 \<le> - dotQ qa qb" using assms(3) by simp
  then show ?thesis using assms(1,2) True by (simp add: slerp_def Let_def)
next
  case False
  then have "1 \<le> dotQ qa qb" using assms(3) by simp
  then show ?thesis using assms(1,2) False by (simp add: slerp_def Let_def)
qed

lemma slerp_unit:
  assumes "dotQ qa qa = 1" "dotQ qb qb = 1"
  shows "dotQ (slerp qa qb t) (slerp qa qb t) = 1"
proof -
  let ?d = "dotQ qa qb"
  consider "t = 0" | "t = 1" | "t \<noteq> 0" "t \<noteq> 1" "1 \<le> \<bar>?d\<bar>" | "t \<noteq> 0" "t \<noteq> 1" "\<bar>?d\<bar> < 1"
    by linarith
  then show ?thesis
  proof cases
    case 1
    then show ?thesis using assms by (simp add: slerp_ends)
  next
    case 2
    then show ?thesis using assms by (simp add: slerp_ends)
  next
    case 3
    then have "slerp qa qb t = qa" by (rule slerp_parallel)
    then show ?thesis using assms by simp
  next
    case 4
    let ?sg = "if ?d < 0 then - 1 else 1 :: real"
    let ?q = "Quaternion (?sg * qx qb) (?sg * qy qb) (?sg * qz qb) (?sg * qw qb)"
    let ?A = "sin ((1 - t) * arccos \<bar>?d\<bar>) / sqrt (1 - \<bar>?d\<bar> * \<bar>?d\<bar>)"
    let ?B = "sin (t * arccos \<bar>?d\<bar>) / sqrt (1 - \<bar>?d\<bar> * \<bar>?d\<bar>)"
    have q1: "dotQ ?q ?q = 1" using assms(2) by (simp add: dotQ_def)
    have "dotQ qa ?q = ?sg * ?d" by (simp add: dotQ_def algebra_simps)
    then have pq: "dotQ qa ?q = \<bar>?d\<bar>" by simp
    have w: "?A * ?A + ?B * ?B + 2 * ?A * ?B * dotQ qa ?q = 1"
      unfolding pq using 4(3) by (intro slerp_weights) simp_all
    have "slerp qa qb t =
            Quaternion (qx qa * ?A + qx ?q * ?B) (qy qa * ?A + qy ?q * ?B)
                       (qz qa * ?A + qz ?q * ?B) (qw qa * ?A + qw ?q * ?B)"
      using slerp_generic [OF 4] by (simp only: quaternion.sel)
    then show ?thesis
      using combination_unit [OF assms(1) q1 w] by (simp only:)
  qed
qed

lemma applyQuaternion_sign:
  "sg = 1 \<or> sg = - 1 \<Longrightarrow>
     applyQuaternion v (Quaternion (sg * x) (sg * y) (sg * z) (sg * w)) =
     applyQuaternion v (Quaternion x y z w)"
  by (cases v) (auto simp add: Let_def algebra_simps)

lemma unit_parallel:
  assumes "dotQ p p = 1" "dotQ q q = 1" "1 \<le> \<bar>dotQ p q\<bar>"
  shows "\<exists>sg. (sg = 1 \<or> sg = - 1) \<and> q = Quaternion (sg * qx p) (sg * qy p) (sg * qz p) (sg * qw p)"
proof -
  have zero: "x = 0 \<and> y = 0 \<and> z = 0 \<and> w = 0" if "x * x + y * y + z * z + w * w \<le> 0" for x y z w :: real
  proof -
    have "0 \<le> x * x" "0 \<le> y * y" "0 \<le> z * z" "0 \<le> w * w" by simp_all
    with that have "x * x = 0" "y * y = 0" "z * z = 0" "w * w = 0" by linarith+
    then show ?thesis by simp
  qed
  show ?thesis
  proof (cases "0 \<le> dotQ p q")
    case True
    with assms(3) have d: "1 \<le> dotQ p q" by simp
    have "(qx q - qx p) * (qx q - qx p) + (qy q - qy p) * (qy q - qy p)
          + (qz q - qz p) * (qz q - qz p) + (qw q - qw p) * (qw q - qw p)
          = dotQ p p + dotQ q q - 2 * dotQ p q"
      by (simp add: dotQ_def algebra_simps)
    also have "\<dots> \<le> 0" using assms(1,2) d by simp
    finally have "qx q - qx p = 0 \<and> qy q - qy p = 0 \<and> qz q - qz p = 0 \<and> qw q - qw p = 0"
      by (rule zero)
    then have "q = Quaternion (1 * qx p) (1 * qy p) (1 * qz p) (1 * qw p)"
      by (cases q) simp
    then show ?thesis by blast
  next
    case False
    with assms(3) have d: "dotQ p q \<le> - 1" by simp
    have "(qx q + qx p) * (qx q + qx p) + (qy q + qy p) * (qy q + qy p)
          + (qz q + qz p) * (qz q + qz p) + (qw q + qw p) * (qw q + qw p)
          = dotQ p p + dotQ q q + 2 * dotQ p q"
      by (simp add: dotQ_def algebra_simps)
    also have "\<dots> \<le> 0" using assms(1,2) d by simp
    finally have "qx q + qx p = 0 \<and> qy q + qy p = 0 \<and> qz q + qz p = 0 \<and> qw q + qw p = 0"
      by (rule zero)
    then have "q = Quaternion (- 1 * qx p) (- 1 * qy p) (- 1 * qz p) (- 1 * qw p)"
      by (cases q) (simp add: add_eq_0_iff2)
    then show ?thesis by blast
  qed
qed

lemma dotQ_commute: "dotQ p q = dotQ q p"
  by (simp add: dotQ_def mult.commute)

text \<open>
  Swapping the two rotations and replacing \<open>t\<close> by \<open>1 - t\<close> gives the same quaternion up
  to sign, hence the same rotation.
\<close>

lemma slerp_swap:
  assumes "dotQ qa qa = 1" "dotQ qb qb = 1"
  shows "applyQuaternion v (slerp qa qb t) = applyQuaternion v (slerp qb qa (1 - t))"
proof -
  let ?d = "dotQ qa qb"
  consider "t = 0" | "t = 1" | "t \<noteq> 0" "t \<noteq> 1" "1 \<le> \<bar>?d\<bar>" | "t \<noteq> 0" "t \<noteq> 1" "\<bar>?d\<bar> < 1"
    by linarith
  then show ?thesis
  proof cases
    case 1
    then show ?thesis by (simp add: slerp_ends)
  next
    case 2
    then show ?thesis by (simp add: slerp_ends)
  next
    case 3
    then have l: "slerp qa qb t = qa" by (rule slerp_parallel)
    have "1 - t \<noteq> 0" "1 - t \<noteq> 1" "1 \<le> \<bar>dotQ qb qa\<bar>"
      using 3 by (simp_all add: dotQ_commute [of qb qa])
    then have r: "slerp qb qa (1 - t) = qb" by (rule slerp_parallel)
    from unit_parallel [OF assms 3(3)] obtain sg where
      sg: "sg = 1 \<or> sg = - 1" and q: "qb = Quaternion (sg * qx qa) (sg * qy qa) (sg * qz qa) (sg * qw qa)"
      by blast
    have "applyQuaternion v qb = applyQuaternion v (Quaternion (qx qa) (qy qa) (qz qa) (qw qa))"
      by (subst q) (rule applyQuaternion_sign [OF sg])
    then show ?thesis by (simp add: l r)
  next
    case 4
    let ?sg = "if ?d < 0 then - 1 else 1 :: real"
    let ?A = "sin ((1 - t) * arccos \<bar>?d\<bar>) / sqrt (1 - \<bar>?d\<bar> * \<bar>?d\<bar>)"
    let ?B = "sin (t * arccos \<bar>?d\<bar>) / sqrt (1 - \<bar>?d\<bar> * \<bar>?d\<bar>)"
    let ?L = "Quaternion (qx qa * ?A + ?sg * qx qb * ?B) (qy qa * ?A + ?sg * qy qb * ?B)
                         (qz qa * ?A + ?sg * qz qb * ?B) (qw qa * ?A + ?sg * qw qb * ?B)"
    have l: "slerp qa qb t = ?L" by (rule slerp_generic [OF 4])
    have t': "1 - t \<noteq> 0" "1 - t \<noteq> 1" "\<bar>dotQ qb qa\<bar> < 1"
      using 4 by (simp_all add: dotQ_commute [of qb qa])
    have r: "slerp qb qa (1 - t) =
               Quaternion (?sg * (qx qa * ?A + ?sg * qx qb * ?B)) (?sg * (qy qa * ?A + ?sg * qy qb * ?B))
                          (?sg * (qz qa * ?A + ?sg * qz qb * ?B)) (?sg * (qw qa * ?A + ?sg * qw qb * ?B))"
      unfolding slerp_generic [OF t'] dotQ_commute [of qb qa]
      by (simp add: algebra_simps)
    have "?sg = 1 \<or> ?sg = - 1" by simp
    then show ?thesis unfolding l r by (rule applyQuaternion_sign [symmetric])
  qed
qed

lemma lengthV_y_axis: "lengthV (0, a, 0) = \<bar>a\<bar>"
  by simp

lemma lengthV_positive_nonzero: "0 < lengthV v \<Longrightarrow> v \<noteq> (0, 0, 0)"
  by (auto simp: lengthV_zero_iff)

text \<open>
  C1. For \<open>start\<close> and \<open>end\<close> on the sphere of radius \<open>R\<close> the interpolation returns
  \<open>start\<close> at \<open>t = 0\<close> and \<open>end\<close> at \<open>t = 1\<close>; each is its vector normalised and scaled
  to \<open>R\<close>. (Exact arithmetic, the quaternion operations as the spec describes them; the
  pair need not even be non-antipodal.)
\<close>

theorem great_circle_endpoints:
  "lengthV start = R \<Longrightarrow> lengthV endv = R \<Longrightarrow> 0 < R \<Longrightarrow>
     getGreatCirclePoint start endv 0 R = start
   \<and> getGreatCirclePoint start endv 1 R = endv
   \<and> getGreatCirclePoint start endv 0 R = multiplyScalar (normalizeV start) R
   \<and> getGreatCirclePoint start endv 1 R = multiplyScalar (normalizeV endv) R"
proof -
  assume s: "lengthV start = R" and e: "lengthV endv = R" and R: "0 < R"
  have ns: "start \<noteq> (0, 0, 0)" using s R by (intro lengthV_positive_nonzero) simp
  have ne: "endv \<noteq> (0, 0, 0)" using e R by (intro lengthV_positive_nonzero) simp
  note ends = getGreatCirclePoint_ends [OF ns ne, of R]
  have "multiplyScalar (normalizeV start) R = start" using s R by (rule normalizeV_scaled_back)
  moreover have "multiplyScalar (normalizeV endv) R = endv" using e R by (rule normalizeV_scaled_back)
  ultimately show ?thesis using ends by simp
qed

theorem great_circle_endpoints_witness:
  "lengthV (8, 0, 0) = 8 \<and> lengthV (0, 8, 0) = 8 \<and> (0::real) < 8
   \<and> getGreatCirclePoint (8, 0, 0) (0, 8, 0) 0 8 = (8, 0, 0)
   \<and> getGreatCirclePoint (8, 0, 0) (0, 8, 0) 1 8 = (0, 8, 0)"
proof -
  have s: "lengthV (8, 0, 0) = 8" by (simp add: lengthV_x_axis del: lengthV.simps)
  have e: "lengthV (0, 8, 0) = 8" by (simp add: lengthV_y_axis del: lengthV.simps)
  have R: "(0::real) < 8" by simp
  note c = great_circle_endpoints [OF s e R]
  from s e R c [THEN conjunct1] c [THEN conjunct2, THEN conjunct1] show ?thesis by (intro conjI)
qed

text \<open>Every sample of the curve is on the sphere, with or without the lateral offset.\<close>

lemma getGreatCirclePoint_length:
  assumes "0 < R"
  shows "lengthV (getGreatCirclePoint start endv t R) = R"
proof -
  let ?qs = "setFromUnitVectors (0, 1, 0) (normalizeV start)"
  let ?qe = "setFromUnitVectors (0, 1, 0) (normalizeV endv)"
  have "dotQ (slerp ?qs ?qe t) (slerp ?qs ?qe t) = 1"
    by (rule slerp_unit) (rule setFromUnitVectors_unit)+
  then have "lengthV (applyQuaternion (0, 1, 0) (slerp ?qs ?qe t)) = 1"
    by (rule applyQuaternion_up_unit)
  then have "lengthV (multiplyScalar (applyQuaternion (0, 1, 0) (slerp ?qs ?qe t)) R) = R"
    using assms by (simp add: lengthV_multiplyScalar)
  then show ?thesis
    by (simp only: getGreatCirclePoint_def Let_def slerpQuaternions_def)
qed

lemma dotV_self: "dotV v v = lengthV v * lengthV v"
  by (cases v) simp

lemma dotV_cross_left: "dotV p (crossVectors p t) = 0"
  by (cases p; cases t) (simp add: algebra_simps)

lemma dotV_multiplyScalar: "dotV p (multiplyScalar q s) = s * dotV p q"
  by (cases p; cases q) (simp add: algebra_simps)

lemma dotV_addV: "dotV r (addV p q) = dotV r p + dotV r q"
  by (cases p; cases q; cases r) (simp add: algebra_simps)

lemma dotV_commute: "dotV p q = dotV q p"
  by (cases p; cases q) (simp add: mult.commute)

lemma dotV_normalizeV_cross: "dotV p (normalizeV (crossVectors p t)) = 0"
  by (simp add: normalizeV_def divideScalar_def dotV_multiplyScalar dotV_cross_left)

lemma perturbed_nonzero:
  assumes "0 < lengthV p"
  shows "addV p (multiplyScalar (normalizeV (crossVectors p t)) k) \<noteq> (0, 0, 0)"
proof
  assume z: "addV p (multiplyScalar (normalizeV (crossVectors p t)) k) = (0, 0, 0)"
  have "dotV p (addV p (multiplyScalar (normalizeV (crossVectors p t)) k)) = lengthV p * lengthV p"
    by (simp add: dotV_addV dotV_multiplyScalar dotV_normalizeV_cross dotV_self)
  moreover have "dotV p (addV p (multiplyScalar (normalizeV (crossVectors p t)) k)) = 0"
    unfolding z by (cases p) simp
  ultimately show False using assms by simp
qed

text \<open>
  C5. For every \<open>t\<close> and every radius \<open>R > 0\<close> the point the great-circle evaluation
  returns has magnitude \<open>R\<close>: the plain evaluation, and the evaluation of
  \<open>TrafficFlow.tsx\<close> without an offset and with one, where the perturbed point is
  normalised and scaled by \<open>R\<close> again. (Exact arithmetic.)
\<close>

theorem great_circle_on_sphere:
  "0 < R \<Longrightarrow>
     lengthV (getGreatCirclePoint start endv t R) = R
   \<and> lengthV (getGreatCirclePointOffset start endv t R None) = R
   \<and> lengthV (getGreatCirclePointOffset start endv t R (Some off)) = R"
proof -
  assume R: "0 < R"
  let ?p = "getGreatCirclePoint start endv t R"
  have p: "lengthV ?p = R" using R by (rule getGreatCirclePoint_length)
  have none: "lengthV (getGreatCirclePointOffset start endv t R None) = R"
    using p by (simp add: getGreatCirclePointOffset_def)
  let ?moved = "addV ?p (multiplyScalar (normalizeV (crossVectors ?p (normalizeV (subV endv start))))
                           (lengthV off * (1 / 10)))"
  have "0 < lengthV ?p" using p R by simp
  then have "?moved \<noteq> (0, 0, 0)" by (rule perturbed_nonzero)
  then have "lengthV (normalizeV ?moved) = 1" by (rule lengthV_normalizeV)
  then have "lengthV (multiplyScalar (normalizeV ?moved) R) = R"
    using R by (simp add: lengthV_multiplyScalar)
  then have some: "lengthV (getGreatCirclePointOffset start endv t R (Some off)) = R"
    by (simp add: getGreatCirclePointOffset_def Let_def)
  from p none some show ?thesis by (intro conjI)
qed

theorem great_circle_on_sphere_witness:
  "(0::real) < 8
   \<and> lengthV (getGreatCirclePoint (8, 0, 0) (0, 8, 0) (1 / 2) 8) = 8
   \<and> lengthV (getGreatCirclePointOffset (8, 0, 0) (0, 8, 0) (1 / 2) 8 (Some (1 / 10, 1 / 5, 1 / 5))) = 8"
proof -
  have R: "(0::real) < 8" by simp
  note c = great_circle_on_sphere [OF R, of "(8, 0, 0)" "(0, 8, 0)" "1 / 2" "(1 / 10, 1 / 5, 1 / 5)"]
  from R c [THEN conjunct1] c [THEN conjunct2, THEN conjunct2] show ?thesis by (intro conjI)
qed

text \<open>
  C8. Evaluating the interpolation at \<open>t\<close> gives the same point as evaluating it at
  \<open>1 - t\<close> with \<open>start\<close> and \<open>end\<close> swapped. (Exact arithmetic; it holds for every \<open>t\<close> and
  every pair of vectors.)
\<close>

theorem great_circle_swap_symmetry:
  "getGreatCirclePoint start endv t R = getGreatCirclePoint endv start (1 - t) R"
proof -
  let ?qs = "setFromUnitVectors (0, 1, 0) (normalizeV start)"
  let ?qe = "setFromUnitVectors (0, 1, 0) (normalizeV endv)"
  have "applyQuaternion (0, 1, 0) (slerp ?qs ?qe t) = applyQuaternion (0, 1, 0) (slerp ?qe ?qs (1 - t))"
    by (rule slerp_swap) (rule setFromUnitVectors_unit)+
  then show ?thesis
    by (simp only: getGreatCirclePoint_def Let_def slerpQuaternions_def)
qed

end
